theory Spec2Isabelle
  imports
    Main
    "HOL-Library.AList"
    "HOL-Library.Sublist"
    "HOL-Library.Multiset"
    "HOL-Library.Log_Nat"
    "HOL-Library.Word"
begin

section \<open>Values of the run time\<close>

text \<open>
  A JavaScript string is a sequence of UTF-16 code units; \<open>js\<close> writes one from a
  literal of the theory (one code unit for each character of the literal). A property
  that holds text holds \<^verbatim>\<open>undefined\<close>, \<^verbatim>\<open>null\<close> or a string: the static types of
  src/schema.ts are erased at run time, and what a record holds is what the object
  spreads of src/storage.ts put there. A property that is missing from an object reads as
  \<^verbatim>\<open>undefined\<close>, and no operation of the storage tells the two apart in a stored
  record. Timestamps are the millisecond counts that \<^verbatim>\<open>Date.getTime()\<close> returns.
\<close>

type_synonym code_unit = "16 word"

type_synonym jsstring = "code_unit list"

definition js :: "string \<Rightarrow> jsstring" where
  "js s = map (\<lambda>c. of_nat (of_char c)) s"

datatype jstext = Undefined | Null | Str jsstring

datatype error = TypeError

type_synonym timestamp = int

section \<open>Data model (src/schema.ts)\<close>

record user =
  u_id :: jsstring
  u_username :: jsstring
  u_password :: jsstring

record contact =
  c_id :: jsstring
  c_name :: jstext
  c_email :: jstext
  c_phone :: jstext
  c_company :: jstext
  c_title :: jstext
  c_status :: jstext
  c_notes :: jstext
  c_createdAt :: timestamp
  c_updatedAt :: timestamp

record activity =
  a_id :: jsstring
  a_contactId :: jsstring
  a_type :: jsstring
  a_title :: jsstring
  a_description :: jstext
  a_scheduledAt :: "timestamp option"
  a_completedAt :: "timestamp option"
  a_createdAt :: timestamp

text \<open>
  \<^verbatim>\<open>InsertUser\<close>, \<^verbatim>\<open>InsertContact\<close> and \<^verbatim>\<open>InsertActivity\<close>: the insert schemas omit the
  generated columns. \<^verbatim>\<open>name\<close> and \<^verbatim>\<open>email\<close> are required strings; an optional key
  that is omitted reads as \<open>Undefined\<close>. \<^verbatim>\<open>status\<close> has a column default, which makes it
  optional on insert. For the two optional dates of an activity, \<open>None\<close> is the omitted
  key and \<open>Some None\<close> is \<^verbatim>\<open>null\<close>.
\<close>

record insert_user =
  iu_username :: jsstring
  iu_password :: jsstring

record insert_contact =
  i_name :: jsstring
  i_email :: jsstring
  i_phone :: jstext
  i_company :: jstext
  i_title :: jstext
  i_status :: jstext
  i_notes :: jstext

record insert_activity =
  ia_contactId :: jsstring
  ia_type :: jsstring
  ia_title :: jsstring
  ia_description :: jstext
  ia_scheduledAt :: "timestamp option option"
  ia_completedAt :: "timestamp option option"

text \<open>
  The argument of \<^verbatim>\<open>updateContact\<close> as the object spread sees it: for each property of a
  contact, \<open>None\<close> when the object has no such key, and otherwise the value under the
  key, which may be \<^verbatim>\<open>undefined\<close>. \<^verbatim>\<open>Partial<InsertContact>\<close> is the subset without the
  keys \<^verbatim>\<open>id\<close>, \<^verbatim>\<open>createdAt\<close> and \<^verbatim>\<open>updatedAt\<close> (\<open>well_typed\<close>).
\<close>

record contact_update =
  p_id :: "jsstring option"
  p_name :: "jstext option"
  p_email :: "jstext option"
  p_phone :: "jstext option"
  p_company :: "jstext option"
  p_title :: "jstext option"
  p_status :: "jstext option"
  p_notes :: "jstext option"
  p_createdAt :: "timestamp option"
  p_updatedAt :: "timestamp option"

definition well_typed :: "contact_update \<Rightarrow> bool" where
  "well_typed u = (p_id u = None \<and> p_createdAt u = None \<and> p_updatedAt u = None)"

record filters =
  f_search :: "jsstring option"
  f_company :: "jsstring option"
  f_status :: "jsstring option"

section \<open>The JavaScript Map (insertion ordered, one entry per key)\<close>

type_synonym 'v jsmap = "(jsstring \<times> 'v) list"

definition map_get :: "'v jsmap \<Rightarrow> jsstring \<Rightarrow> 'v option" where
  "map_get m k = map_of m k"

definition map_has :: "'v jsmap \<Rightarrow> jsstring \<Rightarrow> bool" where
  "map_has m k = (k \<in> set (map fst m))"

text \<open>\<^verbatim>\<open>Map.set\<close> overwrites the value of a present key in place and appends a new key.\<close>

definition map_set :: "'v jsmap \<Rightarrow> jsstring \<Rightarrow> 'v \<Rightarrow> 'v jsmap" where
  "map_set m k v = AList.update k v m"

definition map_delete :: "'v jsmap \<Rightarrow> jsstring \<Rightarrow> 'v jsmap" where
  "map_delete m k = AList.delete k m"

definition map_values :: "'v jsmap \<Rightarrow> 'v list" where
  "map_values m = map snd m"

definition map_entries :: "'v jsmap \<Rightarrow> (jsstring \<times> 'v) list" where
  "map_entries m = m"

definition map_wf :: "'v jsmap \<Rightarrow> bool" where
  "map_wf m = distinct (map fst m)"

section \<open>MemStorage (src/storage.ts)\<close>

record storage =
  users :: "user jsmap"
  contacts :: "contact jsmap"
  activities :: "activity jsmap"

definition new_storage :: storage where
  "new_storage = \<lparr>users = [], contacts = [], activities = []\<rparr>"

definition storage_wf :: "storage \<Rightarrow> bool" where
  "storage_wf s = (map_wf (users s) \<and> map_wf (contacts s) \<and> map_wf (activities s))"

subsection \<open>Strings and arrays of the run time\<close>

text \<open>
  \<^verbatim>\<open>String.prototype.includes\<close> is the search for a contiguous occurrence of code
  units. \<^verbatim>\<open>String.prototype.toLowerCase\<close> is the Unicode case mapping of the run time
  (it is not a map over single code units: it can change the length of a string and
  depends on context); the operations that call it take it as the argument
  \<open>toLowerCase\<close>. \<open>latin1_lower\<close> is its value on the strings whose code units are all
  below U+0100. \<^verbatim>\<open>x || null\<close> keeps a non-empty string and turns \<^verbatim>\<open>undefined\<close>,
  \<^verbatim>\<open>null\<close> and the empty string into \<^verbatim>\<open>null\<close>. Calling a method on \<^verbatim>\<open>undefined\<close> or
  \<^verbatim>\<open>null\<close> throws a \<^verbatim>\<open>TypeError\<close>.
\<close>

fun includes_str :: "jsstring \<Rightarrow> jsstring \<Rightarrow> bool" where
  "includes_str [] s = (s = [])"
| "includes_str (c # t) s = (prefix s (c # t) \<or> includes_str t s)"

definition lower_unit :: "code_unit \<Rightarrow> code_unit" where
  "lower_unit u =
     (if (65 \<le> u \<and> u \<le> 90) \<or> (192 \<le> u \<and> u \<le> 222 \<and> u \<noteq> 215) then u + 32 else u)"

definition latin1_lower :: "jsstring \<Rightarrow> jsstring" where
  "latin1_lower s = map lower_unit s"

definition or_null :: "jstext \<Rightarrow> jstext" where
  "or_null v = (case v of Str s \<Rightarrow> (if s = [] then Null else Str s) | _ \<Rightarrow> Null)"

definition or_null_time :: "timestamp option option \<Rightarrow> timestamp option" where
  "or_null_time v = (case v of Some (Some t) \<Rightarrow> Some t | _ \<Rightarrow> None)"

definition truthy :: "jsstring option \<Rightarrow> bool" where
  "truthy v = (case v of None \<Rightarrow> False | Some s \<Rightarrow> s \<noteq> [])"

text \<open>
  \<^verbatim>\<open>Array.prototype.filter\<close> with a callback that may throw: the first exception ends
  the call.
\<close>

fun filter_e :: "('a \<Rightarrow> error + bool) \<Rightarrow> 'a list \<Rightarrow> error + 'a list" where
  "filter_e p [] = Inr []"
| "filter_e p (x # xs) =
     (case p x of
        Inl e \<Rightarrow> Inl e
      | Inr b \<Rightarrow>
          (case filter_e p xs of
             Inl e \<Rightarrow> Inl e
           | Inr ys \<Rightarrow> Inr (if b then x # ys else ys)))"

text \<open>
  \<^verbatim>\<open>Array.prototype.sort\<close> with a comparator is a stable sort: an insertion sort that
  puts an element before the first one it does not compare greater than yields the same
  array as any other stable sort.
\<close>

fun insert_sorted :: "('a \<Rightarrow> 'a \<Rightarrow> int) \<Rightarrow> 'a \<Rightarrow> 'a list \<Rightarrow> 'a list" where
  "insert_sorted cmp x [] = [x]"
| "insert_sorted cmp x (y # ys) =
     (if cmp x y \<le> 0 then x # y # ys else y # insert_sorted cmp x ys)"

definition array_sort :: "('a \<Rightarrow> 'a \<Rightarrow> int) \<Rightarrow> 'a list \<Rightarrow> 'a list" where
  "array_sort cmp xs = foldr (insert_sorted cmp) xs []"

subsection \<open>Users\<close>

definition getUser :: "storage \<Rightarrow> jsstring \<Rightarrow> user option" where
  "getUser s ident = map_get (users s) ident"

definition getUserByUsername :: "storage \<Rightarrow> jsstring \<Rightarrow> user option" where
  "getUserByUsername s username = find (\<lambda>u. u_username u = username) (map_values (users s))"

text \<open>The fresh identifier (\<^verbatim>\<open>randomUUID()\<close>) and the clock reading (\<^verbatim>\<open>new Date()\<close>) are arguments.\<close>

definition createUser :: "storage \<Rightarrow> jsstring \<Rightarrow> insert_user \<Rightarrow> user \<times> storage" where
  "createUser s ident insertUser =
     (let usr = \<lparr>u_id = ident, u_username = iu_username insertUser,
                 u_password = iu_password insertUser\<rparr>
      in (usr, s\<lparr>users := map_set (users s) ident usr\<rparr>))"

subsection \<open>Contacts\<close>

text \<open>
  The callback of the search filter:
  \<^verbatim>\<open>contact.name.toLowerCase().includes(searchLower) || contact.email.toLowerCase().includes(searchLower) || (contact.company && contact.company.toLowerCase().includes(searchLower))\<close>.
  The name is read first and the email only when the name does not match; the company
  is guarded.
\<close>

definition lower_includes ::
  "(jsstring \<Rightarrow> jsstring) \<Rightarrow> jstext \<Rightarrow> jsstring \<Rightarrow> error + bool" where
  "lower_includes toLowerCase v searchLower =
     (case v of
        Str t \<Rightarrow> Inr (includes_str (toLowerCase t) searchLower)
      | _ \<Rightarrow> Inl TypeError)"

definition search_hit ::
  "(jsstring \<Rightarrow> jsstring) \<Rightarrow> jsstring \<Rightarrow> contact \<Rightarrow> error + bool" where
  "search_hit toLowerCase searchLower c =
     (case lower_includes toLowerCase (c_name c) searchLower of
        Inl e \<Rightarrow> Inl e
      | Inr hit_name \<Rightarrow>
          if hit_name then Inr True
          else (case lower_includes toLowerCase (c_email c) searchLower of
                  Inl e \<Rightarrow> Inl e
                | Inr hit_email \<Rightarrow>
                    if hit_email then Inr True
                    else Inr (case c_company c of
                                Str co \<Rightarrow> co \<noteq> [] \<and> includes_str (toLowerCase co) searchLower
                              | _ \<Rightarrow> False)))"

definition opt_field :: "filters option \<Rightarrow> (filters \<Rightarrow> jsstring option) \<Rightarrow> jsstring option" where
  "opt_field fl sel = (case fl of None \<Rightarrow> None | Some f \<Rightarrow> sel f)"

definition search_stage ::
  "(jsstring \<Rightarrow> jsstring) \<Rightarrow> filters option \<Rightarrow> contact list \<Rightarrow> error + contact list" where
  "search_stage toLowerCase fl cs =
     (if truthy (opt_field fl f_search)
      then filter_e (search_hit toLowerCase (toLowerCase (the (opt_field fl f_search)))) cs
      else Inr cs)"

definition company_stage :: "filters option \<Rightarrow> contact list \<Rightarrow> contact list" where
  "company_stage fl cs =
     (if truthy (opt_field fl f_company) \<and> opt_field fl f_company \<noteq> Some (js ''all'')
      then filter (\<lambda>c. c_company c = Str (the (opt_field fl f_company))) cs
      else cs)"

definition status_stage :: "filters option \<Rightarrow> contact list \<Rightarrow> contact list" where
  "status_stage fl cs =
     (if truthy (opt_field fl f_status) \<and> opt_field fl f_status \<noteq> Some (js ''all'')
      then filter (\<lambda>c. c_status c = Str (the (opt_field fl f_status))) cs
      else cs)"

definition by_updatedAt_desc :: "contact \<Rightarrow> contact \<Rightarrow> int" where
  "by_updatedAt_desc a b = c_updatedAt b - c_updatedAt a"

definition getContacts ::
  "(jsstring \<Rightarrow> jsstring) \<Rightarrow> storage \<Rightarrow> filters option \<Rightarrow> error + contact list" where
  "getContacts toLowerCase s fl =
     (case search_stage toLowerCase fl (map_values (contacts s)) of
        Inl e \<Rightarrow> Inl e
      | Inr cs \<Rightarrow>
          Inr (array_sort by_updatedAt_desc (status_stage fl (company_stage fl cs))))"

definition getContact :: "storage \<Rightarrow> jsstring \<Rightarrow> contact option" where
  "getContact s ident = map_get (contacts s) ident"

definition createContact ::
  "storage \<Rightarrow> jsstring \<Rightarrow> timestamp \<Rightarrow> insert_contact \<Rightarrow> contact \<times> storage" where
  "createContact s ident now insertContact =
     (let c = \<lparr>c_id = ident,
               c_name = Str (i_name insertContact),
               c_email = Str (i_email insertContact),
               c_phone = or_null (i_phone insertContact),
               c_company = or_null (i_company insertContact),
               c_title = or_null (i_title insertContact),
               c_status = i_status insertContact,
               c_notes = or_null (i_notes insertContact),
               c_createdAt = now,
               c_updatedAt = now\<rparr>
      in (c, s\<lparr>contacts := map_set (contacts s) ident c\<rparr>))"

text \<open>The spread \<^verbatim>\<open>{...existing, ...contactUpdate, updatedAt: new Date()}\<close>, property by property.\<close>

definition spread :: "'a \<Rightarrow> 'a option \<Rightarrow> 'a" where
  "spread old upd = (case upd of None \<Rightarrow> old | Some v \<Rightarrow> v)"

definition merge_contact :: "contact \<Rightarrow> contact_update \<Rightarrow> timestamp \<Rightarrow> contact" where
  "merge_contact existing contactUpdate now =
     \<lparr>c_id = spread (c_id existing) (p_id contactUpdate),
      c_name = spread (c_name existing) (p_name contactUpdate),
      c_email = spread (c_email existing) (p_email contactUpdate),
      c_phone = spread (c_phone existing) (p_phone contactUpdate),
      c_company = spread (c_company existing) (p_company contactUpdate),
      c_title = spread (c_title existing) (p_title contactUpdate),
      c_status = spread (c_status existing) (p_status contactUpdate),
      c_notes = spread (c_notes existing) (p_notes contactUpdate),
      c_createdAt = spread (c_createdAt existing) (p_createdAt contactUpdate),
      c_updatedAt = now\<rparr>"

definition updateContact ::
  "storage \<Rightarrow> jsstring \<Rightarrow> contact_update \<Rightarrow> timestamp \<Rightarrow> contact option \<times> storage" where
  "updateContact s ident contactUpdate now =
     (case map_get (contacts s) ident of
        None \<Rightarrow> (None, s)
      | Some existing \<Rightarrow>
          (let updated = merge_contact existing contactUpdate now
           in (Some updated, s\<lparr>contacts := map_set (contacts s) ident updated\<rparr>)))"

definition cascade_step :: "jsstring \<Rightarrow> jsstring \<times> activity \<Rightarrow> activity jsmap \<Rightarrow> activity jsmap" where
  "cascade_step ident e m =
     (if a_contactId (snd e) = ident then map_delete m (fst e) else m)"

definition deleteContact :: "storage \<Rightarrow> jsstring \<Rightarrow> bool \<times> storage" where
  "deleteContact s ident =
     (let deleted = map_has (contacts s) ident;
          cs = map_delete (contacts s) ident;
          acts = fold (cascade_step ident) (map_entries (activities s)) (activities s)
      in (deleted, s\<lparr>contacts := cs, activities := acts\<rparr>))"

subsection \<open>Activities\<close>

definition by_createdAt_desc :: "activity \<Rightarrow> activity \<Rightarrow> int" where
  "by_createdAt_desc a b = a_createdAt b - a_createdAt a"

definition getActivities :: "storage \<Rightarrow> jsstring option \<Rightarrow> activity list" where
  "getActivities s contactId =
     (let as0 = map_values (activities s);
          as1 = (if truthy contactId
                 then filter (\<lambda>a. Some (a_contactId a) = contactId) as0
                 else as0)
      in array_sort by_createdAt_desc as1)"

definition createActivity ::
  "storage \<Rightarrow> jsstring \<Rightarrow> timestamp \<Rightarrow> insert_activity \<Rightarrow> activity \<times> storage" where
  "createActivity s ident now insertActivity =
     (let a = \<lparr>a_id = ident,
               a_contactId = ia_contactId insertActivity,
               a_type = ia_type insertActivity,
               a_title = ia_title insertActivity,
               a_description = or_null (ia_description insertActivity),
               a_scheduledAt = or_null_time (ia_scheduledAt insertActivity),
               a_completedAt = or_null_time (ia_completedAt insertActivity),
               a_createdAt = now\<rparr>
      in (a, s\<lparr>activities := map_set (activities s) ident a\<rparr>))"

subsection \<open>Numbers of the run time\<close>

text \<open>
  A JavaScript number is an IEEE 754 double. The values that occur in the metrics are
  counts and quotients of counts scaled by at most 1000, far from the subnormal range
  and from overflow, so a double is the rational it denotes, and an arithmetic operation
  is the exact operation followed by \<open>to_double\<close>: rounding to 53 significant bits, ties
  to the even significand. \<^verbatim>\<open>Math.round\<close> is exact and rounds a tie upwards.
\<close>

definition floor_log2 :: "rat \<Rightarrow> int" where
  "floor_log2 x =
     (let e0 = bitlen (fst (quotient_of x)) - bitlen (snd (quotient_of x))
      in if 2 powi e0 \<le> x then e0 else e0 - 1)"

definition round_half_even :: "rat \<Rightarrow> int" where
  "round_half_even m =
     (let n = \<lfloor>m\<rfloor>; r = m - of_int n
      in if r < 1 / 2 then n else if 1 / 2 < r then n + 1 else if even n then n else n + 1)"

definition to_double :: "rat \<Rightarrow> rat" where
  "to_double x =
     (if x = 0 then 0
      else (let ulp = 2 powi (floor_log2 \<bar>x\<bar> - 52)
            in of_int (round_half_even (x / ulp)) * ulp))"

definition num_div :: "rat \<Rightarrow> rat \<Rightarrow> rat" where
  "num_div a b = to_double (a / b)"

definition num_mul :: "rat \<Rightarrow> rat \<Rightarrow> rat" where
  "num_mul a b = to_double (a * b)"

definition Math_round :: "rat \<Rightarrow> rat" where
  "Math_round x = of_int \<lfloor>x + 1 / 2\<rfloor>"

subsection \<open>Dashboard metrics\<close>

text \<open>
  The two \<^verbatim>\<open>Date\<close> operations of \<^verbatim>\<open>getMetrics\<close> belong to the run time and depend on
  the local time zone, so they are arguments: \<open>setHours0\<close> is \<^verbatim>\<open>d.setHours(0, 0, 0, 0)\<close>
  (local midnight of the day of \<open>d\<close>) and \<open>setDateNext\<close> is
  \<^verbatim>\<open>d.setDate(d.getDate() + 1)\<close> (the same local time on the next day).
  \<open>fixed_offset_env\<close> is their value in a zone with a constant offset from UTC.
\<close>

record date_env =
  setHours0 :: "timestamp \<Rightarrow> timestamp"
  setDateNext :: "timestamp \<Rightarrow> timestamp"

definition day_ms :: int where
  "day_ms = 86400000"

definition fixed_offset_env :: "int \<Rightarrow> date_env" where
  "fixed_offset_env off =
     \<lparr>setHours0 = (\<lambda>t. t - (t + off) mod day_ms), setDateNext = (\<lambda>t. t + day_ms)\<rparr>"

record metrics =
  totalContacts :: nat
  activeLeads :: nat
  todayActivities :: nat
  conversionRate :: rat

definition is_today :: "date_env \<Rightarrow> timestamp \<Rightarrow> activity \<Rightarrow> bool" where
  "is_today env now a =
     (let today = setHours0 env now; tomorrow = setDateNext env today
      in today \<le> a_createdAt a \<and> a_createdAt a < tomorrow)"

definition getMetrics :: "date_env \<Rightarrow> storage \<Rightarrow> timestamp \<Rightarrow> metrics" where
  "getMetrics env s now =
     (let cs = map_values (contacts s);
          acts = map_values (activities s);
          total = length cs;
          leads = length (filter (\<lambda>c. c_status c = Str (js ''prospect'')) cs);
          todayActs = length (filter (is_today env now) acts);
          activeContacts = length (filter (\<lambda>c. c_status c = Str (js ''active'')) cs);
          rate = (if total > 0
                  then num_mul (num_div (of_nat activeContacts) (of_nat total)) 100
                  else 0)
      in \<lparr>totalContacts = total,
          activeLeads = leads,
          todayActivities = todayActs,
          conversionRate = num_div (Math_round (num_mul rate 10)) 10\<rparr>)"

section \<open>The claims' predicates in the words of the specification\<close>

text \<open>
  A search string is a case-insensitive substring of a text when its lower-case form
  occurs as a contiguous part of the lower-case form of the text. The name and the email
  can contain it when they are strings, the company when it is present (a non-empty
  string). \<open>satisfies\<close> is the conjunction of the filters, where a filter that is
  absent, empty or (for company and status) the word all constrains nothing;
  \<open>satisfies_claimed\<close> is the conjunction without the clauses for the empty string.
  \<open>texts_ok\<close> says that the name and the email of every contact are strings, as they
  are in every contact that \<open>createContact\<close> builds.
\<close>

definition ci_substring :: "(jsstring \<Rightarrow> jsstring) \<Rightarrow> jsstring \<Rightarrow> jsstring \<Rightarrow> bool" where
  "ci_substring toLowerCase q t = sublist (toLowerCase q) (toLowerCase t)"

definition text_contains :: "(jsstring \<Rightarrow> jsstring) \<Rightarrow> jsstring \<Rightarrow> jstext \<Rightarrow> bool" where
  "text_contains toLowerCase q v =
     (case v of Str t \<Rightarrow> ci_substring toLowerCase q t | _ \<Rightarrow> False)"

definition present :: "jstext \<Rightarrow> bool" where
  "present v = (case v of Str t \<Rightarrow> t \<noteq> [] | _ \<Rightarrow> False)"

definition search_matches :: "(jsstring \<Rightarrow> jsstring) \<Rightarrow> jsstring \<Rightarrow> contact \<Rightarrow> bool" where
  "search_matches toLowerCase q c =
     (text_contains toLowerCase q (c_name c) \<or>
      text_contains toLowerCase q (c_email c) \<or>
      (present (c_company c) \<and> text_contains toLowerCase q (c_company c)))"

definition satisfies :: "(jsstring \<Rightarrow> jsstring) \<Rightarrow> filters option \<Rightarrow> contact \<Rightarrow> bool" where
  "satisfies toLowerCase fl c =
     ((case opt_field fl f_search of
         None \<Rightarrow> True
       | Some q \<Rightarrow> q = [] \<or> search_matches toLowerCase q c) \<and>
      (case opt_field fl f_company of
         None \<Rightarrow> True
       | Some v \<Rightarrow> v = js ''all'' \<or> v = [] \<or> c_company c = Str v) \<and>
      (case opt_field fl f_status of
         None \<Rightarrow> True
       | Some v \<Rightarrow> v = js ''all'' \<or> v = [] \<or> c_status c = Str v))"

definition satisfies_claimed ::
  "(jsstring \<Rightarrow> jsstring) \<Rightarrow> filters option \<Rightarrow> contact \<Rightarrow> bool" where
  "satisfies_claimed toLowerCase fl c =
     ((case opt_field fl f_search of
         None \<Rightarrow> True
       | Some q \<Rightarrow> search_matches toLowerCase q c) \<and>
      (case opt_field fl f_company of
         None \<Rightarrow> True
       | Some v \<Rightarrow> v = js ''all'' \<or> c_company c = Str v) \<and>
      (case opt_field fl f_status of
         None \<Rightarrow> True
       | Some v \<Rightarrow> v = js ''all'' \<or> c_status c = Str v))"

definition is_str :: "jstext \<Rightarrow> bool" where
  "is_str v = (case v of Str t \<Rightarrow> True | _ \<Rightarrow> False)"

definition texts_ok :: "storage \<Rightarrow> bool" where
  "texts_ok s = list_all (\<lambda>c. is_str (c_name c) \<and> is_str (c_email c)) (map_values (contacts s))"

definition only_status :: "jsstring \<Rightarrow> filters option" where
  "only_status v = Some \<lparr>f_search = None, f_company = None, f_status = Some v\<rparr>"

definition only_search :: "jsstring \<Rightarrow> filters option" where
  "only_search q = Some \<lparr>f_search = Some q, f_company = None, f_status = None\<rparr>"

text \<open>
  The clock has not gone back behind the storage when no contact's \<open>updatedAt\<close> is
  later than the clock reading.
\<close>

definition clock_ok :: "storage \<Rightarrow> timestamp \<Rightarrow> bool" where
  "clock_ok s now = list_all (\<lambda>c. c_updatedAt c \<le> now) (map_values (contacts s))"

text \<open>
  The conversion rate in exact arithmetic: the share of contacts whose status is
  \<^verbatim>\<open>"active"\<close>, in percent, and 0 when there is no contact. \<open>round1\<close> rounds to one
  decimal place, a tie upwards as \<^verbatim>\<open>Math.round\<close> does; \<open>is_tie\<close> says that a number lies
  exactly halfway between two neighbouring numbers with one decimal place.
\<close>

definition exact_rate :: "storage \<Rightarrow> rat" where
  "exact_rate s =
     (let cs = map_values (contacts s);
          total = length cs;
          active = length (filter (\<lambda>c. c_status c = Str (js ''active'')) cs)
      in if total = 0 then 0 else of_nat active / of_nat total * 100)"

definition round1 :: "rat \<Rightarrow> rat" where
  "round1 x = of_int \<lfloor>x * 10 + 1 / 2\<rfloor> / 10"

definition is_tie :: "rat \<Rightarrow> bool" where
  "is_tie x = (of_int \<lfloor>x * 10 + 1 / 2\<rfloor> = x * 10 + 1 / 2)"

text \<open>
  The storages that the operations build from the empty one while the clock readings
  never decrease; the second argument is the latest clock reading.
\<close>

inductive reachable :: "storage \<Rightarrow> timestamp \<Rightarrow> bool" where
  start: "reachable new_storage t"
| tick: "reachable s t \<Longrightarrow> t \<le> t' \<Longrightarrow> reachable s t'"
| create_user: "reachable s t \<Longrightarrow> reachable (snd (createUser s k iu)) t"
| create_contact: "reachable s t \<Longrightarrow> reachable (snd (createContact s k t d)) t"
| update_contact: "reachable s t \<Longrightarrow> reachable (snd (updateContact s k u t)) t"
| delete_contact: "reachable s t \<Longrightarrow> reachable (snd (deleteContact s k)) t"
| create_activity: "reachable s t \<Longrightarrow> reachable (snd (createActivity s k t ia)) t"

section \<open>Example data\<close>

definition ann :: insert_contact where
  "ann = \<lparr>i_name = js ''Ann Lee'', i_email = js ''ann@acme.io'', i_phone = Undefined,
          i_company = Str (js ''Acme Corp''), i_title = Undefined,
          i_status = Str (js ''prospect''), i_notes = Undefined\<rparr>"

definition bob :: insert_contact where
  "bob = \<lparr>i_name = [201, 109, 105, 108, 101], i_email = js ''bob@initech.io'',
          i_phone = Null, i_company = Str [], i_title = Str (js ''CTO''),
          i_status = Str (js ''active''), i_notes = Undefined\<rparr>"

definition call_with :: "jsstring \<Rightarrow> insert_activity" where
  "call_with cid = \<lparr>ia_contactId = cid, ia_type = js ''call'', ia_title = js ''Intro call'',
          ia_description = Undefined, ia_scheduledAt = None, ia_completedAt = None\<rparr>"

definition demo_storage :: storage where
  "demo_storage =
     snd (createActivity
       (snd (createContact (snd (createContact new_storage (js ''c1'') 1000 ann))
          (js ''c2'') 2000 bob))
       (js ''a1'') 3000 (call_with (js ''c1'')))"

definition orphan_storage :: storage where
  "orphan_storage = snd (createActivity new_storage (js ''a1'') 1000 (call_with (js ''ghost'')))"

definition no_update :: contact_update where
  "no_update =
     \<lparr>p_id = None, p_name = None, p_email = None, p_phone = None, p_company = None,
      p_title = None, p_status = None, p_notes = None, p_createdAt = None,
      p_updatedAt = None\<rparr>"

definition status_update :: "jsstring \<Rightarrow> contact_update" where
  "status_update v = no_update\<lparr>p_status := Some (Str v)\<rparr>"

definition id_carrying_update :: contact_update where
  "id_carrying_update = no_update\<lparr>p_id := Some (js ''c9''), p_createdAt := Some 7\<rparr>"

definition name_undefined_update :: contact_update where
  "name_undefined_update = no_update\<lparr>p_name := Some Undefined\<rparr>"

definition nameless_storage :: storage where
  "nameless_storage = snd (updateContact demo_storage (js ''c1'') name_undefined_update 5000)"

definition with_status :: "string \<Rightarrow> insert_contact" where
  "with_status st = \<lparr>i_name = js ''N'', i_email = js ''n@x.io'', i_phone = Undefined,
      i_company = Undefined, i_title = Undefined, i_status = Str (js st),
      i_notes = Undefined\<rparr>"

definition four_storage :: storage where
  "four_storage =
     snd (createContact (snd (createContact (snd (createContact (snd (createContact
       new_storage (js ''k1'') 10 (with_status ''prospect'')))
       (js ''k2'') 20 (with_status ''prospect'')))
       (js ''k3'') 30 (with_status ''active'')))
       (js ''k4'') 40 (with_status ''active''))"

text \<open>
  A storage with \<open>n\<close> contacts, created one after the other under keys of different
  lengths; the first \<open>act\<close> of them are active, the others prospects.
\<close>

definition sample_key :: "nat \<Rightarrow> jsstring" where
  "sample_key i = replicate (Suc i) 107"

definition sample_input :: "nat \<Rightarrow> nat \<Rightarrow> insert_contact" where
  "sample_input act i = with_status (if i < act then ''active'' else ''prospect'')"

definition sample_storage :: "nat \<Rightarrow> nat \<Rightarrow> storage" where
  "sample_storage n act =
     fold (\<lambda>i s. snd (createContact s (sample_key i) (int i) (sample_input act i)))
       [0..<n] new_storage"

section \<open>Basic facts\<close>

subsection \<open>The map\<close>

lemma map_has_iff: "map_has m k \<longleftrightarrow> map_get m k \<noteq> None"
  by (simp add: map_has_def map_get_def map_of_eq_None_iff)

lemma map_delete_filter: "map_delete m k = filter (\<lambda>e. fst e \<noteq> k) m"
  by (induction m) (auto simp: map_delete_def)

lemma map_delete_absent: "map_get m k = None \<Longrightarrow> map_delete m k = m"
  by (simp add: map_delete_def map_get_def map_of_eq_None_iff)

lemma map_get_delete: "map_get (map_delete m k) k = None"
  by (simp add: map_delete_def map_get_def AList.delete_conv')

lemma map_get_set: "map_get (map_set m k v) k = Some v"
  by (simp add: map_set_def map_get_def AList.update_conv')

lemma map_values_set_fresh:
  "map_get m k = None \<Longrightarrow> map_values (map_set m k v) = map_values m @ [v]"
  by (induction m) (auto simp: map_get_def map_set_def map_values_def split: if_splits)

lemma map_values_set_subset:
  "set (map_values (map_set m k v)) \<subseteq> insert v (set (map_values m))"
  by (induction m) (auto simp: map_set_def map_values_def)

lemma map_values_delete_subset: "set (map_values (map_delete m k)) \<subseteq> set (map_values m)"
  by (auto simp: map_delete_filter map_values_def)

lemma map_get_in_values: "map_get m k = Some v \<Longrightarrow> v \<in> set (map_values m)"
  by (force simp: map_get_def map_values_def dest: map_of_SomeD)

lemma update_fresh: "k \<notin> fst ` set al \<Longrightarrow> AList.update k v al = al @ [(k, v)]"
  by (induction al) auto

subsection \<open>The cascade of \<open>deleteContact\<close>\<close>

lemma cascade_step_filter:
  "cascade_step k e m =
     filter (\<lambda>x. \<not> (a_contactId (snd e) = k \<and> fst x = fst e)) m"
  by (simp add: cascade_step_def map_delete_filter)

lemma fold_cascade:
  "fold (cascade_step k) es m =
     filter (\<lambda>e. fst e \<notin> fst ` {x \<in> set es. a_contactId (snd x) = k}) m"
proof (induction es arbitrary: m)
  case Nil
  then show ?case by simp
next
  case (Cons e es)
  have "fold (cascade_step k) (e # es) m = fold (cascade_step k) es (cascade_step k e m)"
    by simp
  also have "\<dots> = filter (\<lambda>x. fst x \<notin> fst ` {x \<in> set es. a_contactId (snd x) = k})
                      (filter (\<lambda>x. \<not> (a_contactId (snd e) = k \<and> fst x = fst e)) m)"
    by (simp only: Cons.IH cascade_step_filter)
  also have "\<dots> = filter (\<lambda>x. fst x \<notin> fst ` {x \<in> set (e # es). a_contactId (snd x) = k}) m"
    unfolding filter_filter by (rule filter_cong) auto
  finally show ?case .
qed

lemma cascade_self:
  assumes "map_wf m"
  shows "fold (cascade_step k) (map_entries m) m = filter (\<lambda>e. a_contactId (snd e) \<noteq> k) m"
proof -
  have "fst e \<in> fst ` {x \<in> set m. a_contactId (snd x) = k} \<longleftrightarrow> a_contactId (snd e) = k"
    if "e \<in> set m" for e
  proof
    assume "fst e \<in> fst ` {x \<in> set m. a_contactId (snd x) = k}"
    then obtain x where x: "x \<in> set m" "a_contactId (snd x) = k" "fst x = fst e" by auto
    from assms that x(1,3) have "x = e"
      unfolding map_wf_def by (metis eq_key_imp_eq_value prod.collapse)
    with x(2) show "a_contactId (snd e) = k" by simp
  next
    assume "a_contactId (snd e) = k"
    with that show "fst e \<in> fst ` {x \<in> set m. a_contactId (snd x) = k}" by auto
  qed
  then show ?thesis
    unfolding fold_cascade map_entries_def by (intro filter_cong) simp_all
qed

lemma cascade_removes:
  "\<forall>e \<in> set (fold (cascade_step k) (map_entries m) m). a_contactId (snd e) \<noteq> k"
  unfolding fold_cascade map_entries_def by force

subsection \<open>Sorting\<close>

lemma mset_insert_sorted: "mset (insert_sorted cmp x ys) = add_mset x (mset ys)"
  by (induction ys) auto

lemma mset_array_sort: "mset (array_sort cmp xs) = mset xs"
  by (induction xs) (auto simp: array_sort_def mset_insert_sorted)

lemma set_array_sort: "set (array_sort cmp xs) = set xs"
  by (metis mset_array_sort set_mset_mset)

lemma insert_sorted_key:
  "insert_sorted (\<lambda>a b. f b - f a) x ys = insort_key (\<lambda>c. - f c) x ys"
  for f :: "'a \<Rightarrow> int"
  by (induction ys) auto

lemma array_sort_key:
  "array_sort (\<lambda>a b. f b - f a) xs = sort_key (\<lambda>c. - f c) xs"
  for f :: "'a \<Rightarrow> int"
  by (induction xs) (auto simp: array_sort_def sort_key_def insert_sorted_key)

lemma array_sort_desc:
  "sorted_wrt (\<lambda>a b. f b \<le> f a) (array_sort (\<lambda>a b. f b - f a) xs)"
  for f :: "'a \<Rightarrow> int"
proof -
  have "sorted (map (\<lambda>c. - f c) (sort_key (\<lambda>c. - f c) xs))"
    by (rule sorted_sort_key)
  then show ?thesis
    by (simp add: array_sort_key sorted_map)
qed

subsection \<open>Searching and filtering\<close>

lemma includes_str_sublist: "includes_str t s \<longleftrightarrow> sublist s t"
  by (induction t) (simp_all add: sublist_Cons_right)

lemma lower_includes_Str:
  "lower_includes toLowerCase (Str t) (toLowerCase q) = Inr (ci_substring toLowerCase q t)"
  by (simp add: lower_includes_def ci_substring_def includes_str_sublist)

lemma search_hit_strings:
  assumes "is_str (c_name c)" and "is_str (c_email c)"
  shows "search_hit toLowerCase (toLowerCase q) c = Inr (search_matches toLowerCase q c)"
proof -
  from assms obtain n e where ne: "c_name c = Str n" "c_email c = Str e"
    by (auto simp: is_str_def split: jstext.splits)
  show ?thesis
    by (cases "c_company c")
       (auto simp: search_hit_def search_matches_def text_contains_def present_def ne
          lower_includes_Str ci_substring_def includes_str_sublist)
qed

lemma filter_e_total:
  "(\<And>x. x \<in> set xs \<Longrightarrow> p x = Inr (P x)) \<Longrightarrow> filter_e p xs = Inr (filter P xs)"
  by (induction xs) simp_all

lemma search_stage_filter:
  assumes "list_all (\<lambda>c. is_str (c_name c) \<and> is_str (c_email c)) cs
           \<or> \<not> truthy (opt_field fl f_search)"
  shows "search_stage toLowerCase fl cs =
     Inr (filter (\<lambda>c. case opt_field fl f_search of
                         None \<Rightarrow> True
                       | Some q \<Rightarrow> q = [] \<or> search_matches toLowerCase q c) cs)"
proof (cases "truthy (opt_field fl f_search)")
  case False
  then show ?thesis
    by (cases "opt_field fl f_search") (simp_all add: search_stage_def truthy_def)
next
  case True
  then obtain q where q: "opt_field fl f_search = Some q" "q \<noteq> []"
    by (cases "opt_field fl f_search") (simp_all add: truthy_def)
  from True assms have ok: "list_all (\<lambda>c. is_str (c_name c) \<and> is_str (c_email c)) cs"
    by simp
  have "filter_e (search_hit toLowerCase (toLowerCase q)) cs
          = Inr (filter (search_matches toLowerCase q) cs)"
    using ok by (intro filter_e_total search_hit_strings) (simp_all add: list_all_iff)
  with True q show ?thesis
    by (simp add: search_stage_def)
qed

lemma company_stage_filter:
  "company_stage fl cs =
     filter (\<lambda>c. case opt_field fl f_company of
                    None \<Rightarrow> True
                  | Some v \<Rightarrow> v = js ''all'' \<or> v = [] \<or> c_company c = Str v) cs"
  by (cases "opt_field fl f_company") (auto simp: company_stage_def truthy_def)

lemma status_stage_filter:
  "status_stage fl cs =
     filter (\<lambda>c. case opt_field fl f_status of
                    None \<Rightarrow> True
                  | Some v \<Rightarrow> v = js ''all'' \<or> v = [] \<or> c_status c = Str v) cs"
  by (cases "opt_field fl f_status") (auto simp: status_stage_def truthy_def)

lemma getContacts_filter:
  assumes "texts_ok s \<or> \<not> truthy (opt_field fl f_search)"
  shows "getContacts toLowerCase s fl =
     Inr (array_sort by_updatedAt_desc
            (filter (satisfies toLowerCase fl) (map_values (contacts s))))"
proof -
  from assms have "list_all (\<lambda>c. is_str (c_name c) \<and> is_str (c_email c)) (map_values (contacts s))
           \<or> \<not> truthy (opt_field fl f_search)"
    by (simp add: texts_ok_def)
  note stage = search_stage_filter [OF this, of toLowerCase]
  have "status_stage fl (company_stage fl
          (filter (\<lambda>c. case opt_field fl f_search of
                          None \<Rightarrow> True
                        | Some q \<Rightarrow> q = [] \<or> search_matches toLowerCase q c) cs))
        = filter (satisfies toLowerCase fl) cs" for cs
    unfolding company_stage_filter status_stage_filter filter_filter satisfies_def
    by (rule filter_cong) auto
  then show ?thesis
    by (simp add: getContacts_def stage)
qed

lemma getContacts_Inr_sorted:
  "getContacts toLowerCase s fl = Inr r \<Longrightarrow>
     sorted_wrt (\<lambda>a b. c_updatedAt b \<le> c_updatedAt a) r"
  unfolding getContacts_def by_updatedAt_desc_def
  by (auto split: sum.splits intro: array_sort_desc)

lemma getContacts_cong:
  assumes "search_stage toLowerCase fl = search_stage toLowerCase fl'"
    and "company_stage fl = company_stage fl'"
    and "status_stage fl = status_stage fl'"
  shows "getContacts toLowerCase s fl = getContacts toLowerCase s fl'"
  unfolding getContacts_def assms ..

lemmas stage_simps = fun_eq_iff search_stage_def company_stage_def status_stage_def
  opt_field_def truthy_def only_status_def

lemma texts_ok_new: "texts_ok new_storage"
  by (simp add: texts_ok_def new_storage_def map_values_def)

lemma texts_ok_createContact:
  assumes "texts_ok s"
  shows "texts_ok (snd (createContact s k now d))"
proof -
  let ?c = "fst (createContact s k now d)"
  have new: "is_str (c_name ?c) \<and> is_str (c_email ?c)"
    by (simp add: createContact_def Let_def is_str_def)
  have "set (map_values (contacts (snd (createContact s k now d))))
          \<subseteq> insert ?c (set (map_values (contacts s)))"
    using map_values_set_subset [of "contacts s" k ?c]
    by (simp add: createContact_def Let_def)
  with assms new show ?thesis
    unfolding texts_ok_def list_all_iff by blast
qed

subsection \<open>The clock\<close>

lemma clock_ok_values:
  "clock_ok s now \<longleftrightarrow> (\<forall>c \<in> set (map_values (contacts s)). c_updatedAt c \<le> now)"
  by (simp add: clock_ok_def list_all_iff)

lemma clock_ok_mono: "clock_ok s t \<Longrightarrow> t \<le> t' \<Longrightarrow> clock_ok s t'"
  by (fastforce simp: clock_ok_values)

lemma clock_ok_set:
  assumes "clock_ok s t" and "c_updatedAt c \<le> t"
  shows "clock_ok (s\<lparr>contacts := map_set (contacts s) k c\<rparr>) t"
  using assms map_values_set_subset [of "contacts s" k c]
  by (auto simp: clock_ok_values)

lemma reachable_clock_ok: "reachable s t \<Longrightarrow> clock_ok s t"
proof (induction rule: reachable.induct)
  case (start t)
  show ?case by (simp add: clock_ok_values new_storage_def map_values_def)
next
  case (tick s t t')
  then show ?case by (blast intro: clock_ok_mono)
next
  case (create_user s t k iu)
  then show ?case by (simp add: clock_ok_values createUser_def Let_def)
next
  case (create_contact s t k d)
  then show ?case by (simp add: createContact_def Let_def clock_ok_set)
next
  case (update_contact s t k u)
  then show ?case
    by (cases "map_get (contacts s) k")
       (simp_all add: updateContact_def Let_def clock_ok_set merge_contact_def)
next
  case (delete_contact s t k)
  then show ?case
    using map_values_delete_subset [of "contacts s" k]
    by (auto simp: clock_ok_values deleteContact_def Let_def)
next
  case (create_activity s t k ia)
  then show ?case by (simp add: clock_ok_values createActivity_def Let_def)
qed

subsection \<open>Activities of the day\<close>

lemma todayActivities_filter:
  "todayActivities (getMetrics env s now) =
     length (filter (is_today env now) (map_values (activities s)))"
  by (simp add: getMetrics_def Let_def)

lemma is_today_eq:
  "is_today env now =
     (\<lambda>a. setHours0 env now \<le> a_createdAt a
          \<and> a_createdAt a < setDateNext env (setHours0 env now))"
  by (simp add: fun_eq_iff is_today_def Let_def)

lemma createActivity_values:
  "map_get (activities s) k = None \<Longrightarrow>
     map_values (activities (snd (createActivity s k t ia)))
       = map_values (activities s) @ [fst (createActivity s k t ia)]"
  by (simp add: createActivity_def Let_def map_values_set_fresh)

lemma createActivity_createdAt: "a_createdAt (fst (createActivity s k t ia)) = t"
  by (simp add: createActivity_def Let_def)

lemma fixed_offset_midnight:
  "(setHours0 (fixed_offset_env off) now + off) mod day_ms = 0
   \<and> setHours0 (fixed_offset_env off) now \<le> now
   \<and> now < setDateNext (fixed_offset_env off) (setHours0 (fixed_offset_env off) now)
   \<and> (setDateNext (fixed_offset_env off) (setHours0 (fixed_offset_env off) now) + off) mod day_ms = 0"
proof -
  have pos: "0 < day_ms" by (simp add: day_ms_def)
  have a: "(now - (now + off) mod day_ms + off) mod day_ms = 0"
    by (metis add.commute add_diff_eq minus_mod_eq_mult_div mod_mult_self1_is_0)
  have b: "0 \<le> (now + off) mod day_ms" "(now + off) mod day_ms < day_ms"
    using pos by simp_all
  have c: "(now - (now + off) mod day_ms + day_ms + off) mod day_ms = 0"
    using a by (metis add.assoc add.commute mod_add_self1)
  from a b c show ?thesis
    by (simp add: fixed_offset_env_def)
qed

subsection \<open>Rounding to a double\<close>

lemma bitlen_lower: "0 < p \<Longrightarrow> (2::rat) powi (bitlen p - 1) \<le> of_int p"
proof -
  assume p: "0 < p"
  then have b: "1 \<le> bitlen p"
    using bitlen_eq_zero_iff [of p] bitlen_nonneg [of p] by linarith
  from bitlen_bounds [OF p] have "(2::int) ^ nat (bitlen p - 1) \<le> p" by simp
  then have "(of_int ((2::int) ^ nat (bitlen p - 1)) :: rat) \<le> of_int p"
    by (simp only: of_int_le_iff)
  with b show ?thesis by (simp add: power_int_def)
qed

lemma bitlen_upper: "0 < q \<Longrightarrow> of_int q < (2::rat) powi (bitlen q)"
proof -
  assume q: "0 < q"
  from bitlen_bounds [OF q] have "q < (2::int) ^ nat (bitlen q)" by simp
  then have "(of_int q :: rat) < of_int ((2::int) ^ nat (bitlen q))"
    by (simp only: of_int_less_iff)
  with bitlen_nonneg [of q] show ?thesis by (simp add: power_int_def)
qed

lemma floor_log2_bounds:
  assumes "0 < x"
  shows "2 powi (floor_log2 x) \<le> x" and "x < 2 powi (floor_log2 x + 1)"
proof -
  obtain p q where pq: "quotient_of x = (p, q)" by (cases "quotient_of x")
  then have q: "0 < q" and x: "x = of_int p / of_int q"
    using quotient_of_denom_pos quotient_of_div by blast+
  from assms q x have p: "0 < p"
    by (simp add: zero_less_divide_iff)
  let ?e0 = "bitlen p - bitlen q"
  have qr: "(0::rat) < of_int q" using q by simp
  have low: "(2::rat) powi (?e0 - 1) \<le> x"
  proof -
    have "(2::rat) powi (?e0 - 1) * of_int q \<le> 2 powi (?e0 - 1) * 2 powi (bitlen q)"
      using bitlen_upper [OF q] by (intro mult_left_mono) simp_all
    also have "\<dots> = 2 powi (bitlen p - 1)"
      by (simp flip: power_int_add)
    also have "\<dots> \<le> of_int p" by (rule bitlen_lower [OF p])
    finally show ?thesis
      using qr by (simp add: x pos_le_divide_eq)
  qed
  have up: "x < (2::rat) powi (?e0 + 1)"
  proof -
    have "of_int p < (2::rat) powi (bitlen p)" by (rule bitlen_upper [OF p])
    also have "\<dots> = 2 powi (?e0 + 1) * 2 powi (bitlen q - 1)"
      by (simp flip: power_int_add)
    also have "\<dots> \<le> 2 powi (?e0 + 1) * of_int q"
      using bitlen_lower [OF q] by (intro mult_left_mono) simp_all
    finally show ?thesis
      using qr by (simp add: x pos_divide_less_eq)
  qed
  have fl: "floor_log2 x = (if 2 powi ?e0 \<le> x then ?e0 else ?e0 - 1)"
    by (simp add: floor_log2_def pq Let_def)
  show "2 powi (floor_log2 x) \<le> x"
    using low by (simp add: fl)
  show "x < 2 powi (floor_log2 x + 1)"
    using up by (auto simp: fl not_le)
qed

lemma round_half_even_error: "\<bar>of_int (round_half_even m) - m\<bar> \<le> 1 / 2"
proof -
  have "of_int \<lfloor>m\<rfloor> \<le> m" "m < of_int \<lfloor>m\<rfloor> + 1"
    by linarith+
  then show ?thesis
    by (auto simp: round_half_even_def Let_def abs_le_iff)
qed

lemma to_double_error:
  assumes "0 \<le> x"
  shows "\<bar>to_double x - x\<bar> \<le> x / 9007199254740992"
proof (cases "x = 0")
  case True
  then show ?thesis by (simp add: to_double_def)
next
  case False
  with assms have pos: "0 < x" by simp
  let ?e = "floor_log2 x"
  let ?ulp = "(2::rat) powi (?e - 52)"
  have ulp: "0 < ?ulp" by simp
  have td: "to_double x = of_int (round_half_even (x / ?ulp)) * ?ulp"
    using pos by (simp add: to_double_def Let_def)
  have "to_double x - x = (of_int (round_half_even (x / ?ulp)) - x / ?ulp) * ?ulp"
    using ulp by (simp add: td field_simps)
  then have "\<bar>to_double x - x\<bar> = \<bar>of_int (round_half_even (x / ?ulp)) - x / ?ulp\<bar> * ?ulp"
    using ulp by (simp add: abs_mult)
  also have "\<dots> \<le> 1 / 2 * ?ulp"
    using ulp round_half_even_error [of "x / ?ulp"] by (intro mult_right_mono) simp_all
  also have "\<dots> = 2 powi ?e / 2 ^ 53"
    by (simp add: power_int_diff)
  also have "\<dots> \<le> x / 2 ^ 53"
    using floor_log2_bounds(1) [OF pos] by (simp add: divide_right_mono)
  finally show ?thesis by simp
qed

lemma to_double_bounds:
  assumes "0 \<le> x"
  shows "0 \<le> to_double x" and "to_double x \<le> 2 * x"
    and "\<bar>to_double x - x\<bar> \<le> x / 9007199254740992"
proof -
  show e: "\<bar>to_double x - x\<bar> \<le> x / 9007199254740992"
    by (rule to_double_error [OF assms])
  from e assms show "0 \<le> to_double x" by linarith
  from e assms show "to_double x \<le> 2 * x" by linarith
qed

lemma scaled_rate_error:
  fixes a t :: nat
  assumes t: "0 < t" and at: "a \<le> t"
  shows "\<bar>num_mul (num_mul (num_div (of_nat a) (of_nat t)) 100) 10 - 1000 * of_nat a / of_nat t\<bar>
           \<le> 7000 / 9007199254740992"
proof -
  define x :: rat where "x = of_nat a / of_nat t"
  define f1 where "f1 = to_double x"
  define f2 where "f2 = to_double (f1 * 100)"
  define f3 where "f3 = to_double (f2 * 10)"
  have x0: "0 \<le> x" and x1: "x \<le> 1"
    using t at by (simp_all add: x_def)
  note b1 = to_double_bounds [OF x0, folded f1_def]
  from b1(1) have "0 \<le> f1 * 100" by simp
  note b2 = to_double_bounds [OF this, folded f2_def]
  from b2(1) have "0 \<le> f2 * 10" by simp
  note b3 = to_double_bounds [OF this, folded f3_def]
  from b1 b2 b3 x0 x1 have "\<bar>f3 - 1000 * x\<bar> \<le> 7000 / 9007199254740992"
    by linarith
  moreover have "num_mul (num_mul (num_div (of_nat a) (of_nat t)) 100) 10 = f3"
    by (simp add: num_mul_def num_div_def f3_def f2_def f1_def x_def)
  ultimately show ?thesis by (simp add: x_def)
qed

lemma rounded_rate_nearest:
  fixes a t :: nat
  assumes t: "0 < t" and at: "a \<le> t" and small: "t < 2 ^ 32"
  defines "f3 \<equiv> num_mul (num_mul (num_div (of_nat a) (of_nat t)) 100) 10"
  shows "\<bar>of_int \<lfloor>f3 + 1 / 2\<rfloor> - 1000 * of_nat a / of_nat t\<bar> \<le> (1 / 2 :: rat)"
proof -
  define x :: rat where "x = of_nat a / of_nat t"
  define k where "k = \<lfloor>f3 + 1 / 2\<rfloor>"
  define A :: int where "A = 2 * int t * k - 2000 * int a"
  have tr: "(0::rat) < of_nat t" using t by simp
  have err: "\<bar>f3 - 1000 * x\<bar> \<le> 7000 / 9007199254740992"
    using scaled_rate_error [OF t at] by (simp add: f3_def x_def)
  have fl: "of_int k \<le> f3 + 1 / 2" "f3 + 1 / 2 < of_int k + 1"
    unfolding k_def by linarith+
  from err fl have kx: "\<bar>of_int k - 1000 * x\<bar> \<le> 1 / 2 + 7000 / 9007199254740992"
    by linarith
  have A_eq: "(of_int A :: rat) = 2 * of_nat t * (of_int k - 1000 * x)"
    using tr by (simp add: A_def x_def field_simps)
  have "\<bar>of_int A :: rat\<bar> = 2 * of_nat t * \<bar>of_int k - 1000 * x\<bar>"
    using tr by (simp add: A_eq abs_mult)
  also have "\<dots> \<le> 2 * of_nat t * (1 / 2 + 7000 / 9007199254740992)"
    using kx tr by (intro mult_left_mono) simp_all
  also have "\<dots> < of_nat t + 1"
  proof -
    from small have "(of_nat t :: rat) < 2 ^ 32"
      by (metis of_nat_less_iff of_nat_numeral of_nat_power)
    then show ?thesis by (simp add: field_simps)
  qed
  finally have "\<bar>of_int A :: rat\<bar> < of_int (int t + 1)" by simp
  then have "\<bar>A\<bar> < int t + 1"
    by (metis of_int_abs of_int_less_iff)
  then have "\<bar>A\<bar> \<le> int t" by simp
  then have "\<bar>of_int A :: rat\<bar> \<le> of_nat t"
    by (metis of_int_abs of_int_le_iff of_int_of_nat_eq)
  then have "2 * of_nat t * \<bar>of_int k - 1000 * x\<bar> \<le> 2 * of_nat t * (1 / 2 :: rat)"
    using tr by (simp add: A_eq abs_mult)
  then have "\<bar>of_int k - 1000 * x\<bar> \<le> (1 / 2 :: rat)"
    using tr by (simp only: mult_le_cancel_left_pos [of "2 * of_nat t"])
  then show ?thesis by (simp add: k_def x_def)
qed

lemma nearest_unique:
  fixes y :: rat and k :: int
  assumes "\<bar>of_int k - y\<bar> \<le> 1 / 2" and "of_int \<lfloor>y + 1 / 2\<rfloor> \<noteq> y + 1 / 2"
  shows "k = \<lfloor>y + 1 / 2\<rfloor>"
proof -
  let ?k' = "\<lfloor>y + 1 / 2\<rfloor>"
  have "of_int ?k' \<le> y + 1 / 2" "y + 1 / 2 < of_int ?k' + 1"
    by linarith+
  with assms have "(of_int ?k' :: rat) - 1 < of_int k" "(of_int k :: rat) < of_int ?k' + 1"
    by linarith+
  then have "?k' - 1 < k" "k < ?k' + 1"
    by (metis of_int_1 of_int_diff of_int_less_iff, metis of_int_1 of_int_add of_int_less_iff)
  then show ?thesis by linarith
qed

lemma to_double_0: "to_double 0 = 0"
  by (simp add: to_double_def)

lemma Math_round_0: "Math_round 0 = 0"
proof -
  have "\<lfloor>1 / 2 :: rat\<rfloor> = 0" by (rule floor_unique) simp_all
  then show ?thesis by (simp add: Math_round_def)
qed

lemma rate_of_none: "num_div (Math_round (num_mul 0 10)) 10 = 0"
  by (simp add: num_mul_def num_div_def to_double_0 Math_round_0)

lemma rate_2_of_4: "num_div (Math_round (num_mul (num_mul (num_div 2 4) 100) 10)) 10 = 50"
  by code_simp

lemma rate_23_of_80:
  "num_div (Math_round (num_mul (num_mul (num_div 23 80) 100) 10)) 10 = to_double (287 / 10)
   \<and> (23 :: rat) / 80 * 100 = 115 / 4
   \<and> to_double (287 / 10) < 115 / 4"
  by code_simp

lemma tie_values:
  "round1 (115 / 4) = 144 / 5"
  "to_double (287 / 10) \<noteq> to_double (144 / 5)"
  "is_tie (115 / 4)"
  "\<not> is_tie 50"
  "to_double (round1 50) = 50"
  by code_simp+

lemma count_by_status:
  "length (filter (\<lambda>c. c_status c = v) cs) = length (filter (\<lambda>st. st = v) (map c_status cs))"
  by (simp add: filter_map comp_def)

lemma conversionRate_eq:
  "conversionRate (getMetrics env s now) =
     (let cs = map_values (contacts s);
          a = length (filter (\<lambda>c. c_status c = Str (js ''active'')) cs)
      in if cs = [] then 0
         else num_div (Math_round (num_mul (num_mul (num_div (of_nat a) (of_nat (length cs))) 100) 10)) 10)"
  by (simp add: getMetrics_def Let_def rate_of_none)

subsection \<open>Evaluating the examples\<close>

lemmas demo_defs = demo_storage_def orphan_storage_def new_storage_def createActivity_def
  createContact_def ann_def bob_def call_with_def map_set_def map_get_def map_has_def
  map_delete_def map_values_def map_entries_def map_wf_def storage_wf_def or_null_def
  or_null_time_def getContact_def deleteContact_def cascade_step_def Let_def js_def

lemmas demo_defs2 = demo_defs getActivities_def truthy_def array_sort_def by_createdAt_desc_def

lemmas demo_defs3 = demo_defs getContacts_def search_stage_def company_stage_def
  status_stage_def search_hit_def lower_includes_def latin1_lower_def lower_unit_def
  truthy_def array_sort_def by_updatedAt_desc_def opt_field_def only_status_def
  only_search_def

lemmas demo_defs4 = demo_defs updateContact_def merge_contact_def spread_def
  status_update_def id_carrying_update_def name_undefined_update_def no_update_def
  well_typed_def

lemma demo_search_ACME:
  "map_sum id (map c_id) (getContacts latin1_lower demo_storage (only_search (js ''ACME'')))
     = Inr [js ''c1'']"
  by (simp add: demo_defs3)

lemma demo_search_emi:
  "map_sum id (map c_id) (getContacts latin1_lower demo_storage (only_search [233, 109, 105]))
     = Inr [js ''c2'']"
  by (simp add: demo_defs3)

lemma demo_texts_ok: "texts_ok demo_storage"
  by (simp add: demo_defs texts_ok_def is_str_def)

lemma demo_reachable: "reachable demo_storage 3000"
  unfolding demo_storage_def
  by (intro reachable.create_activity reachable.tick [of _ 2000 3000]
      reachable.create_contact reachable.tick [of _ 1000 2000] reachable.start) simp_all

lemma createContact_fst:
  "fst (createContact s k t d) = fst (createContact new_storage k t d)"
  by (simp add: createContact_def Let_def)

lemma createContact_contacts:
  "contacts (snd (createContact s k t d))
     = map_set (contacts s) k (fst (createContact new_storage k t d))"
  by (simp add: createContact_def Let_def)

lemma sample_key_inj: "sample_key i = sample_key j \<longleftrightarrow> i = j"
proof
  assume "sample_key i = sample_key j"
  then have "length (sample_key i) = length (sample_key j)" by simp
  then show "i = j" by (simp add: sample_key_def)
qed simp

lemma sample_contacts:
  "contacts (sample_storage n act) =
     map (\<lambda>i. (sample_key i,
                fst (createContact new_storage (sample_key i) (int i) (sample_input act i))))
       [0..<n]"
proof (induction n)
  case 0
  show ?case by (simp add: sample_storage_def new_storage_def)
next
  case (Suc n)
  have step: "sample_storage (Suc n) act
      = snd (createContact (sample_storage n act) (sample_key n) (int n) (sample_input act n))"
    by (simp add: sample_storage_def)
  have fresh: "sample_key n \<notin> fst ` set (contacts (sample_storage n act))"
    by (auto simp: Suc.IH sample_key_inj)
  show ?case
    unfolding step createContact_contacts map_set_def update_fresh [OF fresh]
    by (simp add: Suc.IH)
qed

lemma length_filter_below: "length (filter (\<lambda>i. i < a) [0..<n]) = min a n"
  by (induction n) auto

lemma sample_status:
  "c_status (fst (createContact new_storage k t (sample_input act i))) = Str (js ''active'')
     \<longleftrightarrow> i < act"
  by (simp add: createContact_def Let_def sample_input_def with_status_def js_def)

lemma sample_counts:
  "length (contacts (sample_storage n act)) = n"
  "length (filter (\<lambda>c. c_status c = Str (js ''active'')) (map_values (contacts (sample_storage n act))))
     = min act n"
proof -
  show "length (contacts (sample_storage n act)) = n"
    by (simp add: sample_contacts)
  have "filter (\<lambda>c. c_status c = Str (js ''active'')) (map_values (contacts (sample_storage n act)))
      = map (\<lambda>i. fst (createContact new_storage (sample_key i) (int i) (sample_input act i)))
          (filter (\<lambda>i. i < act) [0..<n])"
    by (simp add: sample_contacts map_values_def filter_map comp_def sample_status)
  then show "length (filter (\<lambda>c. c_status c = Str (js ''active''))
                 (map_values (contacts (sample_storage n act)))) = min act n"
    by (simp add: length_filter_below)
qed

lemma sample_23_of_80:
  "exact_rate (sample_storage 80 23) = 115 / 4"
  "conversionRate (getMetrics env (sample_storage 80 23) now) = to_double (287 / 10)"
proof -
  have len: "length (map_values (contacts (sample_storage 80 23))) = 80"
    using sample_counts(1) [of 80 23] by (simp add: map_values_def)
  then have ne: "map_values (contacts (sample_storage 80 23)) \<noteq> []"
    by auto
  show "exact_rate (sample_storage 80 23) = 115 / 4"
    by (simp add: exact_rate_def Let_def len ne sample_counts(2))
  have "conversionRate (getMetrics env (sample_storage 80 23) now)
      = num_div (Math_round (num_mul (num_mul (num_div (of_nat (min 23 80)) (of_nat 80)) 100) 10)) 10"
    unfolding conversionRate_eq Let_def if_not_P [OF ne] len sample_counts(2) ..
  also have "\<dots> = to_double (287 / 10)"
    using rate_23_of_80 by simp
  finally show "conversionRate (getMetrics env (sample_storage 80 23) now) = to_double (287 / 10)" .
qed

section \<open>The claims\<close>

text \<open>
  C1 (amended). For an id that is not a key of the contacts map, \<open>deleteContact\<close> returns
  false and leaves the users and the contacts as they were. The cascade runs all the
  same: the activities map afterwards holds exactly the entries whose \<open>contactId\<close>
  differs from the id, in their old order. When no activity refers to the id, the whole
  storage is unchanged.
\<close>

theorem deleteContact_absent:
  assumes "getContact s k = None" and "storage_wf s"
  shows "fst (deleteContact s k) = False
       \<and> users (snd (deleteContact s k)) = users s
       \<and> contacts (snd (deleteContact s k)) = contacts s
       \<and> activities (snd (deleteContact s k)) =
           filter (\<lambda>e. a_contactId (snd e) \<noteq> k) (activities s)
       \<and> (filter (\<lambda>e. a_contactId (snd e) = k) (activities s) = []
            \<longrightarrow> snd (deleteContact s k) = s)"
proof -
  let ?s' = "snd (deleteContact s k)"
  from assms(1) have absent: "map_get (contacts s) k = None"
    by (simp add: getContact_def)
  from assms(2) have wf: "map_wf (activities s)"
    by (simp add: storage_wf_def)
  have r: "fst (deleteContact s k) = False"
    using absent by (simp add: deleteContact_def Let_def map_has_iff)
  have u: "users ?s' = users s"
    by (simp add: deleteContact_def Let_def)
  have c: "contacts ?s' = contacts s"
    using absent by (simp add: deleteContact_def Let_def map_delete_absent)
  have a: "activities ?s' = filter (\<lambda>e. a_contactId (snd e) \<noteq> k) (activities s)"
    using wf by (simp add: deleteContact_def Let_def cascade_self)
  have same: "?s' = s" if "filter (\<lambda>e. a_contactId (snd e) = k) (activities s) = []"
  proof -
    from that have "filter (\<lambda>e. a_contactId (snd e) \<noteq> k) (activities s) = activities s"
      by (simp add: filter_empty_conv filter_id_conv)
    with a have "activities ?s' = activities s" by simp
    with u c show ?thesis by simp
  qed
  from r u c a same show ?thesis by blast
qed

theorem deleteContact_absent_witness:
  "getContact demo_storage (js ''zz'') = None \<and> storage_wf demo_storage
   \<and> deleteContact demo_storage (js ''zz'') = (False, demo_storage)"
proof -
  have h1: "getContact demo_storage (js ''zz'') = None" by (simp add: demo_defs)
  have h2: "storage_wf demo_storage" by (simp add: demo_defs)
  have h3: "filter (\<lambda>e. a_contactId (snd e) = (js ''zz'')) (activities demo_storage) = []"
    by (simp add: demo_defs)
  from deleteContact_absent [OF h1 h2] h3
  have "fst (deleteContact demo_storage (js ''zz'')) = False"
    and "snd (deleteContact demo_storage (js ''zz'')) = demo_storage"
    by blast+
  then have "deleteContact demo_storage (js ''zz'') = (False, demo_storage)"
    by (simp add: prod_eq_iff)
  with h1 h2 show ?thesis by simp
qed

text \<open>
  C1 as stated fails: \<open>createActivity\<close> does not check that the contact exists, so an
  activity can refer to an id that is no contact's; \<open>deleteContact\<close> of that id answers
  false and removes the activity.
\<close>

theorem deleteContact_absent_counterexample:
  "getContact orphan_storage (js ''ghost'') = None
   \<and> fst (deleteContact orphan_storage (js ''ghost'')) = False
   \<and> activities orphan_storage \<noteq> []
   \<and> activities (snd (deleteContact orphan_storage (js ''ghost''))) = []
   \<and> snd (deleteContact orphan_storage (js ''ghost'')) \<noteq> orphan_storage"
  by (simp add: demo_defs)

text \<open>
  C2. For an id that is a key of the contacts map, \<open>deleteContact\<close> returns true,
  \<open>getContact\<close> of the id is empty afterwards, no entry of the activities map has this
  \<open>contactId\<close> any more, and no call of \<open>getActivities\<close> (without an argument, with the
  id, or with any other argument) returns an activity with this \<open>contactId\<close>.
\<close>

theorem deleteContact_present:
  assumes "getContact s k \<noteq> None"
  shows "fst (deleteContact s k) = True
       \<and> getContact (snd (deleteContact s k)) k = None
       \<and> (\<forall>e \<in> set (activities (snd (deleteContact s k))). a_contactId (snd e) \<noteq> k)
       \<and> (\<forall>q. \<forall>a \<in> set (getActivities (snd (deleteContact s k)) q). a_contactId a \<noteq> k)"
proof -
  let ?s' = "snd (deleteContact s k)"
  have r: "fst (deleteContact s k) = True"
    using assms by (simp add: deleteContact_def Let_def map_has_iff getContact_def)
  have g: "getContact ?s' k = None"
    by (simp add: deleteContact_def Let_def getContact_def map_get_delete)
  have acts: "activities ?s' = fold (cascade_step k) (map_entries (activities s)) (activities s)"
    by (simp add: deleteContact_def Let_def)
  have v: "\<forall>e \<in> set (activities ?s'). a_contactId (snd e) \<noteq> k"
    unfolding acts by (rule cascade_removes)
  have sub: "set (getActivities ?s' q) \<subseteq> snd ` set (activities ?s')" for q
    by (auto simp: getActivities_def Let_def set_array_sort map_values_def)
  from v sub have n: "\<forall>q. \<forall>a \<in> set (getActivities ?s' q). a_contactId a \<noteq> k"
    by fastforce
  from r g v n show ?thesis by blast
qed

theorem deleteContact_present_witness:
  "getContact demo_storage (js ''c1'') \<noteq> None
   \<and> getActivities demo_storage (Some (js ''c1'')) \<noteq> []
   \<and> fst (deleteContact demo_storage (js ''c1''))
   \<and> getContact (snd (deleteContact demo_storage (js ''c1''))) (js ''c1'') = None
   \<and> getActivities (snd (deleteContact demo_storage (js ''c1''))) (Some (js ''c1'')) = []
   \<and> getActivities (snd (deleteContact demo_storage (js ''c1''))) None = []"
proof -
  have h: "getContact demo_storage (js ''c1'') \<noteq> None" by (simp add: demo_defs)
  have b: "getActivities demo_storage (Some (js ''c1'')) \<noteq> []" by (simp add: demo_defs2)
  have a1: "getActivities (snd (deleteContact demo_storage (js ''c1''))) (Some (js ''c1'')) = []"
    by (simp add: demo_defs2)
  have a2: "getActivities (snd (deleteContact demo_storage (js ''c1''))) None = []"
    by (simp add: demo_defs2)
  from deleteContact_present [OF h] h b a1 a2 show ?thesis by simp
qed

text \<open>
  C3 (amended). In a storage where the name and the email of every contact are strings,
  and in any storage when no non-empty search string is given, \<open>getContacts\<close> returns
  exactly the contacts that satisfy the conjunction of the filters (as a list: those
  contacts, sorted; as a multiset and as a set: the same contacts). A search string
  matches when it is a case-insensitive substring of the name, of the email or of the
  company when there is one; company and status filter by equality, and the values
  \<^verbatim>\<open>"all"\<close> and the empty string apply no filter. A status (or company) filter
  \<^verbatim>\<open>"all"\<close> gives the same result as no such filter. This holds for every case
  mapping \<open>toLowerCase\<close>.
\<close>

theorem getContacts_satisfies:
  assumes "texts_ok s \<or> \<not> truthy (opt_field fl f_search)"
  shows "getContacts toLowerCase s fl =
     Inr (array_sort by_updatedAt_desc
            (filter (satisfies toLowerCase fl) (map_values (contacts s))))
   \<and> (\<exists>r. getContacts toLowerCase s fl = Inr r
         \<and> mset r = filter_mset (satisfies toLowerCase fl) (mset (map_values (contacts s)))
         \<and> set r = {c \<in> set (map_values (contacts s)). satisfies toLowerCase fl c})
   \<and> getContacts toLowerCase s (only_status (js ''all'')) = getContacts toLowerCase s None
   \<and> getContacts toLowerCase s (Some (f\<lparr>f_status := Some (js ''all'')\<rparr>))
       = getContacts toLowerCase s (Some (f\<lparr>f_status := None\<rparr>))
   \<and> getContacts toLowerCase s (Some (f\<lparr>f_company := Some (js ''all'')\<rparr>))
       = getContacts toLowerCase s (Some (f\<lparr>f_company := None\<rparr>))"
proof -
  let ?r = "array_sort by_updatedAt_desc
              (filter (satisfies toLowerCase fl) (map_values (contacts s)))"
  have 1: "getContacts toLowerCase s fl = Inr ?r"
    by (rule getContacts_filter [OF assms])
  have 2: "mset ?r = filter_mset (satisfies toLowerCase fl) (mset (map_values (contacts s)))"
    by (simp add: mset_array_sort)
  have 3: "set ?r = {c \<in> set (map_values (contacts s)). satisfies toLowerCase fl c}"
    by (simp add: set_array_sort)
  have 4: "getContacts toLowerCase s (only_status (js ''all'')) = getContacts toLowerCase s None"
    by (rule getContacts_cong) (auto simp: stage_simps)
  have 5: "getContacts toLowerCase s (Some (f\<lparr>f_status := Some (js ''all'')\<rparr>))
             = getContacts toLowerCase s (Some (f\<lparr>f_status := None\<rparr>))"
    by (rule getContacts_cong) (auto simp: stage_simps)
  have 6: "getContacts toLowerCase s (Some (f\<lparr>f_company := Some (js ''all'')\<rparr>))
             = getContacts toLowerCase s (Some (f\<lparr>f_company := None\<rparr>))"
    by (rule getContacts_cong) (auto simp: stage_simps)
  from 1 2 3 4 5 6 show ?thesis by blast
qed

theorem getContacts_satisfies_witness:
  "texts_ok demo_storage
   \<and> map_sum id (map c_id) (getContacts latin1_lower demo_storage (only_search (js ''ACME'')))
       = Inr [js ''c1'']
   \<and> map c_id (filter (satisfies latin1_lower (only_search (js ''ACME'')))
         (map_values (contacts demo_storage))) = [js ''c1'']
   \<and> map_sum id (map c_id) (getContacts latin1_lower demo_storage (only_search [233, 109, 105]))
       = Inr [js ''c2'']"
proof -
  let ?fl = "only_search (js ''ACME'')"
  let ?hits = "filter (satisfies latin1_lower ?fl) (map_values (contacts demo_storage))"
  have ok: "texts_ok demo_storage \<or> \<not> truthy (opt_field ?fl f_search)"
    using demo_texts_ok by simp
  from getContacts_satisfies [OF ok, of latin1_lower]
  have "getContacts latin1_lower demo_storage ?fl = Inr (array_sort by_updatedAt_desc ?hits)"
    by blast
  with demo_search_ACME have "map c_id (array_sort by_updatedAt_desc ?hits) = [js ''c1'']"
    by simp
  then have "length (array_sort by_updatedAt_desc ?hits) = 1"
    by (metis length_map length_Cons list.size(3) One_nat_def)
  then have len: "length ?hits = 1"
    by (metis mset_array_sort size_mset)
  then obtain c where c: "?hits = [c]"
    by (cases ?hits) auto
  then have "array_sort by_updatedAt_desc ?hits = [c]"
    by (simp add: array_sort_def)
  with \<open>map c_id (array_sort by_updatedAt_desc ?hits) = [js ''c1'']\<close> c
  have "map c_id ?hits = [js ''c1'']" by simp
  with demo_texts_ok demo_search_ACME demo_search_emi show ?thesis by simp
qed

text \<open>
  C3 as stated fails for an empty filter value: with the status filter \<^verbatim>\<open>""\<close> both
  contacts of the example are returned, and no contact has the status \<^verbatim>\<open>""\<close>. It also
  fails once an update of the declared type has stored \<^verbatim>\<open>undefined\<close> as a name: a
  search then throws a \<^verbatim>\<open>TypeError\<close> and returns no list.
\<close>

theorem getContacts_satisfies_counterexample:
  "map_sum id (map c_id) (getContacts latin1_lower demo_storage (only_status []))
     = Inr [js ''c2'', js ''c1'']
   \<and> filter (satisfies_claimed latin1_lower (only_status []))
         (map_values (contacts demo_storage)) = []
   \<and> well_typed name_undefined_update
   \<and> getContacts latin1_lower nameless_storage (only_search (js ''a'')) = Inl TypeError"
  by (simp add: demo_defs3 satisfies_claimed_def nameless_storage_def name_undefined_update_def
      no_update_def well_typed_def updateContact_def merge_contact_def spread_def)

text \<open>
  C4. Whatever the storage, the filters and the case mapping, a list that \<open>getContacts\<close>
  returns is in descending order of \<open>updatedAt\<close>: an element that stands earlier in the
  list has an \<open>updatedAt\<close> at least as large as any element that stands later. A list
  is returned whenever the names and emails of all contacts are strings or no non-empty
  search string is given.
\<close>

theorem getContacts_sorted_desc:
  "(\<forall>r. getContacts toLowerCase s fl = Inr r \<longrightarrow>
        sorted_wrt (\<lambda>a b. c_updatedAt b \<le> c_updatedAt a) r)
   \<and> (texts_ok s \<or> \<not> truthy (opt_field fl f_search) \<longrightarrow>
        (\<exists>r. getContacts toLowerCase s fl = Inr r))"
  using getContacts_Inr_sorted getContacts_filter by blast

theorem getContacts_sorted_desc_witness:
  "map_sum id (map c_updatedAt) (getContacts latin1_lower demo_storage None) = Inr [2000, 1000]
   \<and> map c_updatedAt (map_values (contacts demo_storage)) = [1000, 2000]
   \<and> (\<exists>r. getContacts latin1_lower demo_storage None = Inr r
          \<and> sorted_wrt (\<lambda>a b. c_updatedAt b \<le> c_updatedAt a) r)"
proof -
  have ev: "map_sum id (map c_updatedAt) (getContacts latin1_lower demo_storage None)
              = Inr [2000, 1000]"
    "map c_updatedAt (map_values (contacts demo_storage)) = [1000, 2000]"
    by (simp_all add: demo_defs3)
  then obtain r where r: "getContacts latin1_lower demo_storage None = Inr r"
    by (cases "getContacts latin1_lower demo_storage None") auto
  with getContacts_sorted_desc [of latin1_lower demo_storage None]
  have "sorted_wrt (\<lambda>a b. c_updatedAt b \<le> c_updatedAt a) r" by blast
  with ev r show ?thesis by blast
qed

text \<open>
  C5. The contact that \<open>createContact\<close> returns has equal \<open>createdAt\<close> and \<open>updatedAt\<close>,
  carries the generated id, has \<open>title\<close>, \<open>phone\<close>, \<open>company\<close> and \<open>notes\<close> set to null
  where the input omits them, and \<open>getContact\<close> of its id on the resulting storage
  returns that same record.
\<close>

theorem createContact_roundtrip:
  "c_createdAt (fst (createContact s k now d)) = c_updatedAt (fst (createContact s k now d))
   \<and> c_id (fst (createContact s k now d)) = k
   \<and> (i_title d = Undefined \<longrightarrow> c_title (fst (createContact s k now d)) = Null)
   \<and> (i_phone d = Undefined \<longrightarrow> c_phone (fst (createContact s k now d)) = Null)
   \<and> (i_company d = Undefined \<longrightarrow> c_company (fst (createContact s k now d)) = Null)
   \<and> (i_notes d = Undefined \<longrightarrow> c_notes (fst (createContact s k now d)) = Null)
   \<and> getContact (snd (createContact s k now d)) (c_id (fst (createContact s k now d)))
       = Some (fst (createContact s k now d))"
  by (simp add: createContact_def Let_def getContact_def map_get_set or_null_def)

theorem createContact_roundtrip_witness:
  "i_title ann = Undefined \<and> i_phone ann = Undefined \<and> i_notes ann = Undefined
   \<and> c_title (fst (createContact new_storage (js ''c1'') 1000 ann)) = Null
   \<and> c_phone (fst (createContact new_storage (js ''c1'') 1000 ann)) = Null
   \<and> c_notes (fst (createContact new_storage (js ''c1'') 1000 ann)) = Null
   \<and> c_company (fst (createContact new_storage (js ''c1'') 1000 ann)) = Str (js ''Acme Corp'')
   \<and> c_createdAt (fst (createContact new_storage (js ''c1'') 1000 ann)) = 1000
   \<and> c_updatedAt (fst (createContact new_storage (js ''c1'') 1000 ann)) = 1000
   \<and> getContact (snd (createContact new_storage (js ''c1'') 1000 ann)) (js ''c1'')
       = Some (fst (createContact new_storage (js ''c1'') 1000 ann))"
  using createContact_roundtrip [of new_storage "js ''c1''" 1000 ann]
  by (simp add: ann_def createContact_def or_null_def Let_def js_def)

text \<open>
  C6 (amended). For an update object without the properties \<open>id\<close> and \<open>createdAt\<close>
  (every object of the declared type is one), in a storage none of whose contacts has an
  \<open>updatedAt\<close> later than the clock reading (\<open>clock_ok\<close>, which holds in every storage
  that the operations build while the clock never runs backwards): when the id is no key
  of the contacts map, \<open>updateContact\<close> returns nothing and leaves the storage as it
  was; when it is, the returned and stored record keeps \<open>id\<close> and \<open>createdAt\<close>, keeps
  every property that the update does not carry, takes every property that it carries
  (\<^verbatim>\<open>undefined\<close> included), and has an \<open>updatedAt\<close>, the clock reading, that is at
  least the previous \<open>updatedAt\<close>.
\<close>

theorem updateContact_merge:
  assumes "p_id u = None" and "p_createdAt u = None" and "clock_ok s now"
  shows "(getContact s k = None \<longrightarrow> updateContact s k u now = (None, s))
   \<and> (\<forall>old. getContact s k = Some old \<longrightarrow>
        (\<exists>new. updateContact s k u now = (Some new, s\<lparr>contacts := map_set (contacts s) k new\<rparr>)
           \<and> getContact (snd (updateContact s k u now)) k = Some new
           \<and> c_id new = c_id old
           \<and> c_createdAt new = c_createdAt old
           \<and> c_updatedAt new = now
           \<and> c_updatedAt old \<le> c_updatedAt new
           \<and> (p_name u = None \<longrightarrow> c_name new = c_name old)
           \<and> (p_email u = None \<longrightarrow> c_email new = c_email old)
           \<and> (p_phone u = None \<longrightarrow> c_phone new = c_phone old)
           \<and> (p_company u = None \<longrightarrow> c_company new = c_company old)
           \<and> (p_title u = None \<longrightarrow> c_title new = c_title old)
           \<and> (p_status u = None \<longrightarrow> c_status new = c_status old)
           \<and> (p_notes u = None \<longrightarrow> c_notes new = c_notes old)
           \<and> (\<forall>v. p_name u = Some v \<longrightarrow> c_name new = v)
           \<and> (\<forall>v. p_email u = Some v \<longrightarrow> c_email new = v)
           \<and> (\<forall>v. p_phone u = Some v \<longrightarrow> c_phone new = v)
           \<and> (\<forall>v. p_company u = Some v \<longrightarrow> c_company new = v)
           \<and> (\<forall>v. p_title u = Some v \<longrightarrow> c_title new = v)
           \<and> (\<forall>v. p_status u = Some v \<longrightarrow> c_status new = v)
           \<and> (\<forall>v. p_notes u = Some v \<longrightarrow> c_notes new = v)))"
proof (intro conjI allI impI)
  assume "getContact s k = None"
  then show "updateContact s k u now = (None, s)"
    by (simp add: updateContact_def getContact_def)
next
  fix old
  assume old: "getContact s k = Some old"
  let ?new = "merge_contact old u now"
  from old have upd: "updateContact s k u now
      = (Some ?new, s\<lparr>contacts := map_set (contacts s) k ?new\<rparr>)"
    by (simp add: updateContact_def getContact_def Let_def)
  have get: "getContact (snd (updateContact s k u now)) k = Some ?new"
    by (simp add: upd getContact_def map_get_set)
  from assms(1,2) have frame: "c_id ?new = c_id old" "c_createdAt ?new = c_createdAt old"
    by (simp_all add: merge_contact_def spread_def)
  from old have "old \<in> set (map_values (contacts s))"
    by (simp add: getContact_def map_get_in_values)
  with assms(3) have "c_updatedAt old \<le> now"
    by (simp add: clock_ok_values)
  then have later: "c_updatedAt old \<le> c_updatedAt ?new"
    by (simp add: merge_contact_def)
  have fields: "c_updatedAt ?new = now"
    "p_name u = None \<longrightarrow> c_name ?new = c_name old"
    "p_email u = None \<longrightarrow> c_email ?new = c_email old"
    "p_phone u = None \<longrightarrow> c_phone ?new = c_phone old"
    "p_company u = None \<longrightarrow> c_company ?new = c_company old"
    "p_title u = None \<longrightarrow> c_title ?new = c_title old"
    "p_status u = None \<longrightarrow> c_status ?new = c_status old"
    "p_notes u = None \<longrightarrow> c_notes ?new = c_notes old"
    "\<forall>v. p_name u = Some v \<longrightarrow> c_name ?new = v"
    "\<forall>v. p_email u = Some v \<longrightarrow> c_email ?new = v"
    "\<forall>v. p_phone u = Some v \<longrightarrow> c_phone ?new = v"
    "\<forall>v. p_company u = Some v \<longrightarrow> c_company ?new = v"
    "\<forall>v. p_title u = Some v \<longrightarrow> c_title ?new = v"
    "\<forall>v. p_status u = Some v \<longrightarrow> c_status ?new = v"
    "\<forall>v. p_notes u = Some v \<longrightarrow> c_notes ?new = v"
    by (simp_all add: merge_contact_def spread_def)
  from upd get frame later fields
  show "\<exists>new. updateContact s k u now = (Some new, s\<lparr>contacts := map_set (contacts s) k new\<rparr>)
           \<and> getContact (snd (updateContact s k u now)) k = Some new
           \<and> c_id new = c_id old
           \<and> c_createdAt new = c_createdAt old
           \<and> c_updatedAt new = now
           \<and> c_updatedAt old \<le> c_updatedAt new
           \<and> (p_name u = None \<longrightarrow> c_name new = c_name old)
           \<and> (p_email u = None \<longrightarrow> c_email new = c_email old)
           \<and> (p_phone u = None \<longrightarrow> c_phone new = c_phone old)
           \<and> (p_company u = None \<longrightarrow> c_company new = c_company old)
           \<and> (p_title u = None \<longrightarrow> c_title new = c_title old)
           \<and> (p_status u = None \<longrightarrow> c_status new = c_status old)
           \<and> (p_notes u = None \<longrightarrow> c_notes new = c_notes old)
           \<and> (\<forall>v. p_name u = Some v \<longrightarrow> c_name new = v)
           \<and> (\<forall>v. p_email u = Some v \<longrightarrow> c_email new = v)
           \<and> (\<forall>v. p_phone u = Some v \<longrightarrow> c_phone new = v)
           \<and> (\<forall>v. p_company u = Some v \<longrightarrow> c_company new = v)
           \<and> (\<forall>v. p_title u = Some v \<longrightarrow> c_title new = v)
           \<and> (\<forall>v. p_status u = Some v \<longrightarrow> c_status new = v)
           \<and> (\<forall>v. p_notes u = Some v \<longrightarrow> c_notes new = v)"
    by (intro exI [of _ ?new]) simp
qed

theorem updateContact_merge_witness:
  "well_typed (status_update (js ''active''))
   \<and> clock_ok demo_storage 5000
   \<and> map_option c_updatedAt (getContact demo_storage (js ''c1'')) = Some 1000
   \<and> map_option c_status (getContact demo_storage (js ''c1'')) = Some (Str (js ''prospect''))
   \<and> map_option c_id (fst (updateContact demo_storage (js ''c1'') (status_update (js ''active'')) 5000))
       = Some (js ''c1'')
   \<and> map_option c_name (fst (updateContact demo_storage (js ''c1'') (status_update (js ''active'')) 5000))
       = Some (Str (js ''Ann Lee''))
   \<and> map_option c_status (fst (updateContact demo_storage (js ''c1'') (status_update (js ''active'')) 5000))
       = Some (Str (js ''active''))
   \<and> map_option c_createdAt (fst (updateContact demo_storage (js ''c1'') (status_update (js ''active'')) 5000))
       = Some 1000
   \<and> map_option c_updatedAt (fst (updateContact demo_storage (js ''c1'') (status_update (js ''active'')) 5000))
       = Some 5000
   \<and> map_option c_name (fst (updateContact demo_storage (js ''c1'') name_undefined_update 5000))
       = Some Undefined
   \<and> getContact demo_storage (js ''zz'') = None
   \<and> updateContact demo_storage (js ''zz'') (status_update (js ''active'')) 5000
       = (None, demo_storage)"
proof -
  let ?u = "status_update (js ''active'')"
  have wt: "well_typed ?u"
    by (simp add: status_update_def no_update_def well_typed_def)
  then have no_id: "p_id ?u = None" and no_created: "p_createdAt ?u = None"
    by (simp_all add: well_typed_def)
  have clock: "clock_ok demo_storage 5000"
    using reachable_clock_ok [OF demo_reachable] by (rule clock_ok_mono) simp
  have absent: "getContact demo_storage (js ''zz'') = None"
    by (simp add: demo_defs)
  from updateContact_merge [OF no_id no_created clock, of "js ''zz''"] absent
  have none: "updateContact demo_storage (js ''zz'') ?u 5000 = (None, demo_storage)"
    by blast
  have rest: "map_option c_updatedAt (getContact demo_storage (js ''c1'')) = Some 1000"
    "map_option c_status (getContact demo_storage (js ''c1'')) = Some (Str (js ''prospect''))"
    "map_option c_id (fst (updateContact demo_storage (js ''c1'') ?u 5000)) = Some (js ''c1'')"
    "map_option c_name (fst (updateContact demo_storage (js ''c1'') ?u 5000))
       = Some (Str (js ''Ann Lee''))"
    "map_option c_status (fst (updateContact demo_storage (js ''c1'') ?u 5000))
       = Some (Str (js ''active''))"
    "map_option c_createdAt (fst (updateContact demo_storage (js ''c1'') ?u 5000)) = Some 1000"
    "map_option c_updatedAt (fst (updateContact demo_storage (js ''c1'') ?u 5000)) = Some 5000"
    "map_option c_name (fst (updateContact demo_storage (js ''c1'') name_undefined_update 5000))
       = Some Undefined"
    by (simp_all add: demo_defs4)
  from wt clock absent none rest show ?thesis by simp
qed

text \<open>
  C6 as stated fails for an update object that carries \<open>id\<close> and \<open>createdAt\<close>: the spread
  copies them over the existing record. It also fails when the clock reads earlier than
  the stored \<open>updatedAt\<close> (a clock that was set back): \<open>updatedAt\<close> becomes the clock
  reading and so decreases.
\<close>

theorem updateContact_merge_counterexample:
  "map_option c_id (getContact demo_storage (js ''c1'')) = Some (js ''c1'')
   \<and> map_option c_createdAt (getContact demo_storage (js ''c1'')) = Some 1000
   \<and> p_id id_carrying_update = Some (js ''c9'')
   \<and> p_createdAt id_carrying_update = Some 7
   \<and> map_option c_id (fst (updateContact demo_storage (js ''c1'') id_carrying_update 5000))
       = Some (js ''c9'')
   \<and> map_option c_createdAt (fst (updateContact demo_storage (js ''c1'') id_carrying_update 5000))
       = Some 7
   \<and> map_option c_id
        (getContact (snd (updateContact demo_storage (js ''c1'') id_carrying_update 5000)) (js ''c1''))
       = Some (js ''c9'')
   \<and> well_typed (status_update (js ''active''))
   \<and> \<not> clock_ok demo_storage 500
   \<and> map_option c_updatedAt (getContact demo_storage (js ''c1'')) = Some 1000
   \<and> map_option c_updatedAt
        (fst (updateContact demo_storage (js ''c1'') (status_update (js ''active'')) 500))
       = Some 500"
  by (simp add: demo_defs4 clock_ok_def)

text \<open>
  C7 (amended). With fewer than \<open>2 ^ 32\<close> contacts (the bound on the length of an
  array): \<open>totalContacts\<close> and \<open>activeLeads\<close> are the counts of all contacts and of those
  with status \<^verbatim>\<open>"prospect"\<close>; \<open>conversionRate\<close> is 0 when there is no contact, and
  otherwise the value of the source's expression in double arithmetic, which is the
  double of a number with one decimal place, \<open>k / 10\<close>, no further than half a unit of
  that place from the exact percentage of active contacts. It is the exact percentage
  rounded to one decimal place whenever that percentage does not lie exactly halfway
  between two neighbouring numbers with one decimal place; at such a tie either
  neighbour can result. On the empty storage all four metrics are 0, and four contacts
  with the statuses prospect, prospect, active, active give 4, 2 and 50.
\<close>

theorem getMetrics_conversionRate:
  assumes "length (contacts s) < 2 ^ 32"
  shows "totalContacts (getMetrics env s now) = length (contacts s)
   \<and> activeLeads (getMetrics env s now)
       = length (filter (\<lambda>c. c_status c = Str (js ''prospect'')) (map_values (contacts s)))
   \<and> (totalContacts (getMetrics env s now) = 0 \<longrightarrow> conversionRate (getMetrics env s now) = 0)
   \<and> (contacts s \<noteq> [] \<longrightarrow>
        conversionRate (getMetrics env s now)
          = num_div (Math_round (num_mul (num_mul
              (num_div (of_nat (length (filter (\<lambda>c. c_status c = Str (js ''active''))
                                          (map_values (contacts s)))))
                       (of_nat (length (contacts s)))) 100) 10)) 10)
   \<and> (\<exists>k::int. conversionRate (getMetrics env s now) = to_double (of_int k / 10)
          \<and> \<bar>of_int k / 10 - exact_rate s\<bar> \<le> 1 / 20)
   \<and> (\<not> is_tie (exact_rate s) \<longrightarrow>
        conversionRate (getMetrics env s now) = to_double (round1 (exact_rate s)))
   \<and> getMetrics env new_storage now
       = \<lparr>totalContacts = 0, activeLeads = 0, todayActivities = 0, conversionRate = 0\<rparr>
   \<and> (map c_status (map_values (contacts s))
         = [Str (js ''prospect''), Str (js ''prospect''), Str (js ''active''), Str (js ''active'')] \<longrightarrow>
        totalContacts (getMetrics env s now) = 4
        \<and> activeLeads (getMetrics env s now) = 2
        \<and> conversionRate (getMetrics env s now) = 50)"
proof -
  let ?m = "getMetrics env s now"
  let ?cs = "map_values (contacts s)"
  let ?a = "length (filter (\<lambda>c. c_status c = Str (js ''active'')) ?cs)"
  let ?t = "length ?cs"
  have total: "totalContacts ?m = length (contacts s)"
    by (simp add: getMetrics_def Let_def map_values_def)
  have leads: "activeLeads ?m = length (filter (\<lambda>c. c_status c = Str (js ''prospect'')) ?cs)"
    by (simp add: getMetrics_def Let_def)
  have zero: "conversionRate ?m = 0" if "totalContacts ?m = 0"
    using that by (simp add: total conversionRate_eq map_values_def)
  have expr: "conversionRate ?m
          = num_div (Math_round (num_mul (num_mul
              (num_div (of_nat ?a) (of_nat (length (contacts s)))) 100) 10)) 10"
    if "contacts s \<noteq> []"
    using that by (simp add: conversionRate_eq Let_def map_values_def)
  have core: "\<exists>k::int. conversionRate ?m = to_double (of_int k / 10)
          \<and> \<bar>of_int k - exact_rate s * 10\<bar> \<le> 1 / 2"
  proof (cases "?cs = []")
    case True
    then have "conversionRate ?m = to_double (of_int 0 / 10)" "exact_rate s = 0"
      by (simp_all add: conversionRate_eq exact_rate_def to_double_0)
    then show ?thesis by (intro exI [of _ 0]) simp
  next
    case False
    then have t0: "0 < ?t" by simp
    have at: "?a \<le> ?t" by simp
    from assms have small: "?t < 2 ^ 32" by (simp add: map_values_def)
    define f3 where "f3 = num_mul (num_mul (num_div (of_nat ?a) (of_nat ?t)) 100) 10"
    define k where "k = \<lfloor>f3 + 1 / 2\<rfloor>"
    from rounded_rate_nearest [OF t0 at small]
    have "\<bar>of_int k - 1000 * of_nat ?a / of_nat ?t\<bar> \<le> (1 / 2 :: rat)"
      by (simp add: k_def f3_def)
    moreover have "of_nat ?a / of_nat ?t * 100 * 10 = (1000 * of_nat ?a / of_nat ?t :: rat)"
      by simp
    ultimately have "\<bar>of_int k - of_nat ?a / of_nat ?t * 100 * 10\<bar> \<le> (1 / 2 :: rat)"
      by (simp only:)
    moreover from False have "exact_rate s = of_nat ?a / of_nat ?t * 100"
      by (simp add: exact_rate_def Let_def)
    moreover from False have "conversionRate ?m = to_double (of_int k / 10)"
      by (simp add: conversionRate_eq Let_def Math_round_def k_def f3_def num_div_def [of "of_int _"])
    ultimately show ?thesis by (intro exI [of _ k]) simp
  qed
  then obtain k :: int where k: "conversionRate ?m = to_double (of_int k / 10)"
    "\<bar>of_int k - exact_rate s * 10\<bar> \<le> 1 / 2"
    by blast
  from k(2) have "\<bar>of_int k / 10 - exact_rate s\<bar> \<le> 1 / 20"
    by linarith
  with k(1) have nearest: "\<exists>k::int. conversionRate ?m = to_double (of_int k / 10)
          \<and> \<bar>of_int k / 10 - exact_rate s\<bar> \<le> 1 / 20"
    by blast
  have exact: "conversionRate ?m = to_double (round1 (exact_rate s))"
    if "\<not> is_tie (exact_rate s)"
  proof -
    from that have "of_int \<lfloor>exact_rate s * 10 + 1 / 2\<rfloor> \<noteq> exact_rate s * 10 + 1 / 2"
      by (simp add: is_tie_def)
    from nearest_unique [OF k(2) this] have "k = \<lfloor>exact_rate s * 10 + 1 / 2\<rfloor>" .
    with k(1) show ?thesis by (simp add: round1_def)
  qed
  have empty: "getMetrics env new_storage now
       = \<lparr>totalContacts = 0, activeLeads = 0, todayActivities = 0, conversionRate = 0\<rparr>"
    by (simp add: getMetrics_def new_storage_def map_values_def Let_def rate_of_none)
  have four: "totalContacts ?m = 4 \<and> activeLeads ?m = 2 \<and> conversionRate ?m = 50"
    if st: "map c_status ?cs
         = [Str (js ''prospect''), Str (js ''prospect''), Str (js ''active''), Str (js ''active'')]"
  proof -
    from st have "length (map c_status ?cs) = 4" by simp
    then have len: "?t = 4" by simp
    then have ne: "?cs \<noteq> []" by auto
    have act: "?a = 2" by (simp add: count_by_status [of _ ?cs] st js_def)
    have pro: "length (filter (\<lambda>c. c_status c = Str (js ''prospect'')) ?cs) = 2"
      by (simp add: count_by_status [of _ ?cs] st js_def)
    have "conversionRate ?m = 50"
      using ne by (simp add: conversionRate_eq Let_def act len rate_2_of_4)
    with len pro show ?thesis
      by (simp add: total leads map_values_def)
  qed
  from total leads zero expr nearest exact empty four show ?thesis by blast
qed

theorem getMetrics_conversionRate_witness:
  "length (contacts four_storage) < 2 ^ 32
   \<and> map c_status (map_values (contacts four_storage))
       = [Str (js ''prospect''), Str (js ''prospect''), Str (js ''active''), Str (js ''active'')]
   \<and> totalContacts (getMetrics (fixed_offset_env 0) four_storage 0) = 4
   \<and> activeLeads (getMetrics (fixed_offset_env 0) four_storage 0) = 2
   \<and> conversionRate (getMetrics (fixed_offset_env 0) four_storage 0) = 50"
proof -
  have h1: "length (contacts four_storage) < 2 ^ 32"
    by (simp add: four_storage_def with_status_def demo_defs)
  have h2: "map c_status (map_values (contacts four_storage))
       = [Str (js ''prospect''), Str (js ''prospect''), Str (js ''active''), Str (js ''active'')]"
    by (simp add: four_storage_def with_status_def demo_defs)
  from getMetrics_conversionRate [OF h1, of "fixed_offset_env 0" 0] h2
  have "totalContacts (getMetrics (fixed_offset_env 0) four_storage 0) = 4
        \<and> activeLeads (getMetrics (fixed_offset_env 0) four_storage 0) = 2
        \<and> conversionRate (getMetrics (fixed_offset_env 0) four_storage 0) = 50"
    by blast
  with h1 h2 show ?thesis by blast
qed

text \<open>
  C7 as stated fails at a tie: 23 active contacts of 80 are 28.75 percent, which rounds
  to 28.8 (a tie upwards, as \<^verbatim>\<open>Math.round\<close> does, and a tie to the even digit as well);
  the quotient, the two products and the rounding of the source, carried out on doubles,
  return the double of 28.7.
\<close>

theorem getMetrics_conversionRate_counterexample:
  "length (contacts (sample_storage 80 23)) = 80
   \<and> exact_rate (sample_storage 80 23) = 115 / 4
   \<and> round1 (exact_rate (sample_storage 80 23)) = 144 / 5
   \<and> conversionRate (getMetrics (fixed_offset_env 0) (sample_storage 80 23) 0)
       = to_double (287 / 10)
   \<and> conversionRate (getMetrics (fixed_offset_env 0) (sample_storage 80 23) 0)
       \<noteq> to_double (round1 (exact_rate (sample_storage 80 23)))"
  by (simp add: sample_counts(1) sample_23_of_80 tie_values)

text \<open>
  C8. \<open>todayActivities\<close> is the number of activities whose \<open>createdAt\<close> lies in the
  half-open interval from local midnight today (included) to local midnight tomorrow
  (excluded). An activity created at exactly local midnight today raises the count by
  one (the day being of positive length); one created a second earlier, at 23:59:59 of
  the day before, leaves it as it is.
\<close>

theorem getMetrics_todayActivities:
  "todayActivities (getMetrics env s now) =
     length (filter (\<lambda>a. setHours0 env now \<le> a_createdAt a
                         \<and> a_createdAt a < setDateNext env (setHours0 env now))
               (map_values (activities s)))
   \<and> (map_get (activities s) k = None
        \<and> setHours0 env now < setDateNext env (setHours0 env now) \<longrightarrow>
        todayActivities (getMetrics env (snd (createActivity s k (setHours0 env now) ia)) now)
          = todayActivities (getMetrics env s now) + 1)
   \<and> (map_get (activities s) k = None \<longrightarrow>
        todayActivities (getMetrics env (snd (createActivity s k (setHours0 env now - 1000) ia)) now)
          = todayActivities (getMetrics env s now))"
proof (intro conjI impI)
  show "todayActivities (getMetrics env s now) =
     length (filter (\<lambda>a. setHours0 env now \<le> a_createdAt a
                         \<and> a_createdAt a < setDateNext env (setHours0 env now))
               (map_values (activities s)))"
    by (simp add: todayActivities_filter is_today_eq)
next
  assume "map_get (activities s) k = None
        \<and> setHours0 env now < setDateNext env (setHours0 env now)"
  then show "todayActivities (getMetrics env (snd (createActivity s k (setHours0 env now) ia)) now)
          = todayActivities (getMetrics env s now) + 1"
    by (simp add: todayActivities_filter createActivity_values createActivity_createdAt
        is_today_def Let_def)
next
  assume "map_get (activities s) k = None"
  then show "todayActivities (getMetrics env (snd (createActivity s k (setHours0 env now - 1000) ia)) now)
          = todayActivities (getMetrics env s now)"
    by (simp add: todayActivities_filter createActivity_values createActivity_createdAt
        is_today_def Let_def)
qed

theorem getMetrics_todayActivities_witness:
  "map_get (activities demo_storage) (js ''a2'') = None
   \<and> setHours0 (fixed_offset_env 0) (5 * day_ms + 3600000) = 5 * day_ms
   \<and> setDateNext (fixed_offset_env 0) (5 * day_ms) = 6 * day_ms
   \<and> todayActivities (getMetrics (fixed_offset_env 0) demo_storage (5 * day_ms + 3600000)) = 0
   \<and> todayActivities (getMetrics (fixed_offset_env 0)
        (snd (createActivity demo_storage (js ''a2'') (5 * day_ms) (call_with (js ''c1''))))
        (5 * day_ms + 3600000)) = 1
   \<and> todayActivities (getMetrics (fixed_offset_env 0)
        (snd (createActivity demo_storage (js ''a2'') (5 * day_ms - 1000) (call_with (js ''c1''))))
        (5 * day_ms + 3600000)) = 0"
proof -
  let ?env = "fixed_offset_env 0" and ?now = "5 * day_ms + 3600000"
  have fresh: "map_get (activities demo_storage) (js ''a2'') = None"
    by (simp add: demo_defs)
  have today: "setHours0 ?env ?now = 5 * day_ms"
    by (simp add: fixed_offset_env_def day_ms_def)
  have tomorrow: "setDateNext ?env (5 * day_ms) = 6 * day_ms"
    by (simp add: fixed_offset_env_def day_ms_def)
  have lt: "setHours0 ?env ?now < setDateNext ?env (setHours0 ?env ?now)"
    by (simp add: fixed_offset_env_def day_ms_def)
  have zero: "todayActivities (getMetrics ?env demo_storage ?now) = 0"
    by (simp add: todayActivities_filter is_today_eq fixed_offset_env_def demo_defs day_ms_def)
  note inst = getMetrics_todayActivities [of ?env demo_storage ?now "js ''a2''" "call_with (js ''c1'')"]
  from inst fresh lt zero
  have one: "todayActivities (getMetrics ?env
        (snd (createActivity demo_storage (js ''a2'') (setHours0 ?env ?now) (call_with (js ''c1'')))) ?now) = 1"
    by simp
  from inst fresh zero
  have still: "todayActivities (getMetrics ?env
        (snd (createActivity demo_storage (js ''a2'') (setHours0 ?env ?now - 1000) (call_with (js ''c1'')))) ?now) = 0"
    by simp
  from fresh today tomorrow zero one still show ?thesis
    by simp
qed

text \<open>
  C9 (the code at the failing input). When the input omits \<open>status\<close>, the contact that
  \<open>createContact\<close> returns and stores has no \<open>status\<close> at all; the column default
  \<^verbatim>\<open>"prospect"\<close> of the schema is not applied.
\<close>

theorem createContact_status_omitted:
  "c_status (fst (createContact s k now (d\<lparr>i_status := Undefined\<rparr>))) = Undefined
   \<and> map_option c_status (getContact (snd (createContact s k now (d\<lparr>i_status := Undefined\<rparr>))) k)
       = Some Undefined
   \<and> c_status (fst (createContact s k now (d\<lparr>i_status := Undefined\<rparr>))) \<noteq> Str (js ''prospect'')"
  by (simp add: createContact_def Let_def getContact_def map_get_set)

text \<open>
  C10. An empty string as the value of \<open>search\<close>, \<open>company\<close> or \<open>status\<close> gives the same
  result as leaving that filter out, whatever the other filters are, and
  \<open>getActivities\<close> of the empty string gives the list of all activities, as
  \<open>getActivities\<close> without an argument does.
\<close>

theorem empty_filter_is_absent:
  "getContacts toLowerCase s (Some (f\<lparr>f_search := Some []\<rparr>))
     = getContacts toLowerCase s (Some (f\<lparr>f_search := None\<rparr>))
   \<and> getContacts toLowerCase s (Some (f\<lparr>f_company := Some []\<rparr>))
       = getContacts toLowerCase s (Some (f\<lparr>f_company := None\<rparr>))
   \<and> getContacts toLowerCase s (Some (f\<lparr>f_status := Some []\<rparr>))
       = getContacts toLowerCase s (Some (f\<lparr>f_status := None\<rparr>))
   \<and> getContacts toLowerCase s (Some \<lparr>f_search = Some [], f_company = Some [], f_status = Some []\<rparr>)
       = getContacts toLowerCase s None
   \<and> getContacts toLowerCase s None
       = Inr (array_sort by_updatedAt_desc (map_values (contacts s)))
   \<and> getActivities s (Some []) = getActivities s None
   \<and> getActivities s None = array_sort by_createdAt_desc (map_values (activities s))"
proof -
  have 1: "getContacts toLowerCase s (Some (f\<lparr>f_search := Some []\<rparr>))
     = getContacts toLowerCase s (Some (f\<lparr>f_search := None\<rparr>))"
    by (rule getContacts_cong) (auto simp: stage_simps)
  have 2: "getContacts toLowerCase s (Some (f\<lparr>f_company := Some []\<rparr>))
       = getContacts toLowerCase s (Some (f\<lparr>f_company := None\<rparr>))"
    by (rule getContacts_cong) (auto simp: stage_simps)
  have 3: "getContacts toLowerCase s (Some (f\<lparr>f_status := Some []\<rparr>))
       = getContacts toLowerCase s (Some (f\<lparr>f_status := None\<rparr>))"
    by (rule getContacts_cong) (auto simp: stage_simps)
  have 4: "getContacts toLowerCase s
             (Some \<lparr>f_search = Some [], f_company = Some [], f_status = Some []\<rparr>)
       = getContacts toLowerCase s None"
    by (rule getContacts_cong) (auto simp: stage_simps)
  have 5: "getContacts toLowerCase s None
       = Inr (array_sort by_updatedAt_desc (map_values (contacts s)))"
    by (simp add: getContacts_def search_stage_def company_stage_def status_stage_def
        opt_field_def truthy_def)
  have 6: "getActivities s (Some []) = getActivities s None"
    by (simp add: getActivities_def truthy_def)
  have 7: "getActivities s None = array_sort by_createdAt_desc (map_values (activities s))"
    by (simp add: getActivities_def truthy_def)
  from 1 2 3 4 5 6 7 show ?thesis by blast
qed

end
